theory Spec2Isabelle
  imports Complex_Main "HOL-Library.Signed_Division"
begin

section \<open>The kinodynamic replanning state machine (kino\_replan\_fsm\_node.cpp)\<close>

text \<open>
  The node \<open>KinoReplanFSM\<close> is embedded as explicit state passing: every callback takes
  the members of the class (record \<open>fsm\<close>) and returns either a fault or the updated
  members. C++ \<open>double\<close> is modelled as \<open>real\<close> (rounding, infinities and NaN are not
  represented), \<open>int\<close> as \<open>int\<close>. What the node sends out (console lines, published
  messages, drawing requests) is appended to the field \<open>out\<close>, in program order.
  The planner manager, the distance field, the clock and \<open>atan2\<close> are collaborators of
  the node; one value of record \<open>env\<close> holds their answers during one callback.
\<close>

subsection \<open>Data\<close>

datatype FSM_EXEC_STATE = INIT | WAIT_TARGET | GEN_NEW_TRAJ | REPLAN_TRAJ | EXEC_TRAJ | REPLAN_NEW

text \<open>\<open>enum TARGET_TYPE { MANUAL_TARGET = 1, PRESET_TARGET = 2, REFENCE_PATH = 3 }\<close>;
  the member \<open>target_type_\<close> is an \<open>int\<close>.\<close>

definition MANUAL_TARGET :: int where "MANUAL_TARGET = 1"
definition PRESET_TARGET :: int where "PRESET_TARGET = 2"
definition REFENCE_PATH :: int where "REFENCE_PATH = 3"

text \<open>\<open>Eigen::Vector3d\<close>; \<open>v0\<close>, \<open>v1\<close>, \<open>v2\<close> are the components \<open>(0)\<close>, \<open>(1)\<close>, \<open>(2)\<close>.\<close>

datatype Vector3d = Vec3 (v0: real) (v1: real) (v2: real)

datatype Quaterniond = Quat (qw: real) (qx: real) (qy: real) (qz: real)

definition vzero :: Vector3d where
  "vzero = Vec3 0 0 0"

definition vsub :: "Vector3d \<Rightarrow> Vector3d \<Rightarrow> Vector3d" where
  "vsub a b = Vec3 (v0 a - v0 b) (v1 a - v1 b) (v2 a - v2 b)"

definition vnorm :: "Vector3d \<Rightarrow> real" where
  "vnorm a = sqrt (v0 a * v0 a + v1 a * v1 a + v2 a * v2 a)"

text \<open>A curve object of the planner (\<open>NonUniformBspline\<close>): its evaluation at a time offset
  and the data the node copies into the outgoing trajectory message.\<close>

record 'a NonUniformBspline =
  evaluateDeBoorT :: "real \<Rightarrow> 'a"
  getControlPoint :: "'a list"
  getKnot :: "real list"
  getInterval :: real

record LocalTrajData =
  traj_id :: int
  duration :: real
  start_time :: real
  start_pos :: Vector3d
  position_traj :: "Vector3d NonUniformBspline"
  velocity_traj :: "Vector3d NonUniformBspline"
  acceleration_traj :: "Vector3d NonUniformBspline"
  yaw_traj :: "real NonUniformBspline"
  yawdot_traj :: "real NonUniformBspline"
  yawdotdot_traj :: "real NonUniformBspline"

text \<open>The message \<open>plan_manage::Bspline\<close> filled in by \<open>callKinodynamicReplan\<close>.\<close>

record Bspline =
  order :: int
  bs_start_time :: real
  bs_traj_id :: int
  pos_pts :: "Vector3d list"
  knots :: "real list"
  yaw_pts :: "real list"
  yaw_dt :: real

text \<open>Everything the node emits.\<close>

datatype event =
    Cout string
  | Warn string
  | Replan_msg
  | Bspline_msg Bspline
  | DrawGoal Vector3d
  | DrawGeometricPath
  | DrawBspline

text \<open>\<open>nav_msgs::msg::Path\<close>: the positions of its poses, in order.
  \<open>nav_msgs::msg::Odometry\<close>: the fields the node reads.\<close>

type_synonym Path = "Vector3d list"

record Odometry =
  pose_position :: Vector3d
  pose_orientation :: Quaterniond
  twist_linear :: Vector3d

text \<open>The members of \<open>KinoReplanFSM\<close>. \<open>waypoints\<close> is the array \<open>double waypoints_[50][3]\<close>,
  \<open>fsm_num\<close> the static counter of \<open>execFSMCallback\<close>, \<open>local_data\<close> the planner manager's
  \<open>local_data_\<close>.\<close>

record fsm =
  target_type :: int
  no_replan_thresh :: real
  replan_thresh :: real
  waypoints :: "nat \<Rightarrow> Vector3d"
  waypoint_num :: int
  trigger :: bool
  have_target :: bool
  have_odom :: bool
  exec_state :: FSM_EXEC_STATE
  odom_pos :: Vector3d
  odom_vel :: Vector3d
  odom_orient :: Quaterniond
  start_pt :: Vector3d
  start_vel :: Vector3d
  start_acc :: Vector3d
  start_yaw :: Vector3d
  end_pt :: Vector3d
  end_vel :: Vector3d
  current_wp :: int
  fsm_num :: int
  local_data :: LocalTrajData
  out :: "event list"

text \<open>The collaborators during one callback: the clock (\<open>this->now()\<close>, in seconds), the
  planner manager's \<open>kinodynamicReplan\<close> (success flag and the local trajectory data it
  leaves), \<open>planYaw\<close>, \<open>checkTrajCollision\<close> (safe flag and distance), the flag
  \<open>pp_.dynamic_\<close>, the distance field's \<open>evaluateCoarseEDT\<close>, and the C library's
  \<open>atan2\<close>.\<close>

record env =
  now :: real
  kinodynamicReplan ::
    "Vector3d \<Rightarrow> Vector3d \<Rightarrow> Vector3d \<Rightarrow> Vector3d \<Rightarrow> Vector3d \<Rightarrow> LocalTrajData
      \<Rightarrow> bool \<times> LocalTrajData"
  planYaw :: "Vector3d \<Rightarrow> LocalTrajData \<Rightarrow> LocalTrajData"
  checkTrajCollision :: "LocalTrajData \<Rightarrow> bool \<times> real"
  dynamic :: bool
  evaluateCoarseEDT :: "Vector3d \<Rightarrow> real \<Rightarrow> real"
  atan2 :: "real \<Rightarrow> real \<Rightarrow> real"

text \<open>Executions the C++ standard leaves undefined end in a fault: an index outside the
  state-name array, an index outside the poses of a message or outside the waypoint array,
  a remainder by zero, a read of the local \<open>goal\<close> before it was assigned.\<close>

datatype fault = State_index_out_of_range | Index_out_of_range | Division_by_zero | Uninitialised_read

subsection \<open>State changes and their log lines\<close>

definition state_str :: "string list" where
  "state_str = [''INIT'', ''WAIT_TARGET'', ''GEN_NEW_TRAJ'', ''REPLAN_TRAJ'', ''EXEC_TRAJ'']"

text \<open>The cast \<open>int(exec_state_)\<close>.\<close>

fun state_int :: "FSM_EXEC_STATE \<Rightarrow> nat" where
  "state_int INIT = 0"
| "state_int WAIT_TARGET = 1"
| "state_int GEN_NEW_TRAJ = 2"
| "state_int REPLAN_TRAJ = 3"
| "state_int EXEC_TRAJ = 4"
| "state_int REPLAN_NEW = 5"

definition emit :: "event \<Rightarrow> fsm \<Rightarrow> fsm" where
  "emit ev s = s\<lparr>out := out s @ [ev]\<rparr>"

definition changeFSMExecState :: "FSM_EXEC_STATE \<Rightarrow> string \<Rightarrow> fsm \<Rightarrow> fault + fsm" where
  "changeFSMExecState new_state pos_call s =
     (let pre_s = state_int (exec_state s);
          s1 = s\<lparr>exec_state := new_state\<rparr>
      in if pre_s < length state_str \<and> state_int new_state < length state_str
         then Inr (emit (Cout (''['' @ pos_call @ '']: from '' @ state_str ! pre_s @ '' to ''
                                 @ state_str ! state_int new_state)) s1)
         else Inl State_index_out_of_range)"

definition printFSMExecState :: "fsm \<Rightarrow> fault + fsm" where
  "printFSMExecState s =
     (if state_int (exec_state s) < length state_str
      then Inr (emit (Cout (''[FSM]: state: '' @ state_str ! state_int (exec_state s))) s)
      else Inl State_index_out_of_range)"

subsection \<open>Goal and odometry input\<close>

text \<open>The target selection of \<open>waypointCallback\<close>: the manual goal keeps x and y of the
  message and flies at height 1.0; the preset goal is the next entry of the waypoint array.\<close>

definition select_target :: "Vector3d \<Rightarrow> fsm \<Rightarrow> fault + fsm" where
  "select_target p s =
     (if target_type s = MANUAL_TARGET then Inr (s\<lparr>end_pt := Vec3 (v0 p) (v1 p) 1.0\<rparr>)
      else if target_type s = PRESET_TARGET then
        (if 0 \<le> current_wp s \<and> current_wp s < 50 then
           (if waypoint_num s = 0 then Inl Division_by_zero
            else Inr (s\<lparr>end_pt := waypoints s (nat (current_wp s)),
                         current_wp := (current_wp s + 1) smod waypoint_num s\<rparr>))
         else Inl Index_out_of_range)
      else Inr s)"

definition waypointCallback :: "Path \<Rightarrow> fsm \<Rightarrow> fault + fsm" where
  "waypointCallback msg s =
     (case msg of
        [] \<Rightarrow> Inl Index_out_of_range
      | p # _ \<Rightarrow>
          if v2 p < - 0.1 then Inr s
          else
            (case select_target p ((emit (Cout ''Triggered!'') s)\<lparr>trigger := True\<rparr>) of
               Inl f \<Rightarrow> Inl f
             | Inr s2 \<Rightarrow>
                 (let s3 = (emit (DrawGoal (end_pt s2)) s2)\<lparr>end_vel := vzero, have_target := True\<rparr>
                  in if exec_state s3 = WAIT_TARGET then changeFSMExecState GEN_NEW_TRAJ ''TRIG'' s3
                     else if exec_state s3 = EXEC_TRAJ then changeFSMExecState REPLAN_TRAJ ''TRIG'' s3
                     else Inr s3)))"

definition odometryCallback :: "Odometry \<Rightarrow> fsm \<Rightarrow> fsm" where
  "odometryCallback msg s =
     s\<lparr>odom_pos := pose_position msg,
       odom_vel := twist_linear msg,
       odom_orient := pose_orientation msg,
       have_odom := True\<rparr>"

subsection \<open>The planner call\<close>

text \<open>\<open>callKinodynamicReplan\<close>: on success the yaw is planned and the trajectory message is
  filled from the new local data and published.\<close>

definition bspline_of :: "LocalTrajData \<Rightarrow> Bspline" where
  "bspline_of info =
     \<lparr>order = 3,
      bs_start_time = start_time info,
      bs_traj_id = traj_id info,
      pos_pts = getControlPoint (position_traj info),
      knots = getKnot (position_traj info),
      yaw_pts = getControlPoint (yaw_traj info),
      yaw_dt = getInterval (yaw_traj info)\<rparr>"

definition callKinodynamicReplan :: "env \<Rightarrow> fsm \<Rightarrow> bool \<times> fsm" where
  "callKinodynamicReplan e s =
     (let (plan_success, ld) =
            kinodynamicReplan e (start_pt s) (start_vel s) (start_acc s) (end_pt s) (end_vel s)
              (local_data s);
          s1 = s\<lparr>local_data := ld\<rparr>
      in if plan_success then
           (let s2 = s1\<lparr>local_data := planYaw e (start_yaw s1) (local_data s1)\<rparr>;
                info = local_data s2
            in (True, emit DrawBspline (emit DrawGeometricPath (emit (Bspline_msg (bspline_of info)) s2))))
         else (False, emit (Cout ''generate new traj fail.'') s1))"

subsection \<open>The periodic tick \<open>execFSMCallback\<close>\<close>

text \<open>The counter at the head of the tick: every 100th tick prints the state.\<close>

definition fsm_count :: "fsm \<Rightarrow> fault + fsm" where
  "fsm_count s =
     (let s0 = s\<lparr>fsm_num := fsm_num s + 1\<rparr>
      in if fsm_num s0 = 100 then
           (case printFSMExecState s0 of
              Inl f \<Rightarrow> Inl f
            | Inr s1 \<Rightarrow>
                (let s2 = (if \<not> have_odom s1 then emit (Cout ''no odom.'') s1 else s1);
                     s3 = (if \<not> trigger s2 then emit (Cout ''wait for goal.'') s2 else s2)
                 in Inr (s3\<lparr>fsm_num := 0\<rparr>)))
         else Inr s0)"

definition exec_INIT :: "fsm \<Rightarrow> fault + fsm" where
  "exec_INIT s =
     (if \<not> have_odom s then Inr s
      else if \<not> trigger s then Inr s
      else changeFSMExecState WAIT_TARGET ''FSM'' s)"

definition exec_WAIT_TARGET :: "fsm \<Rightarrow> fault + fsm" where
  "exec_WAIT_TARGET s =
     (if \<not> have_target s then Inr s
      else changeFSMExecState GEN_NEW_TRAJ ''FSM'' s)"

text \<open>The first column of \<open>odom_orient_.toRotationMatrix()\<close>.\<close>

definition rot_x_of :: "Quaterniond \<Rightarrow> Vector3d" where
  "rot_x_of q =
     Vec3 (1 - (2 * qy q * qy q + 2 * qz q * qz q))
          (2 * qy q * qx q + 2 * qz q * qw q)
          (2 * qz q * qx q - 2 * qy q * qw q)"

text \<open>The start state of a new trajectory, from the odometry (case \<open>GEN_NEW_TRAJ\<close> up to the
  planner call).\<close>

definition gen_start :: "env \<Rightarrow> fsm \<Rightarrow> fsm" where
  "gen_start e s =
     (let rot_x = rot_x_of (odom_orient s)
      in s\<lparr>start_pt := odom_pos s,
           start_vel := odom_vel s,
           start_acc := vzero,
           start_yaw := Vec3 (atan2 e (v1 rot_x) (v0 rot_x)) 0 0\<rparr>)"

definition exec_GEN_NEW_TRAJ :: "env \<Rightarrow> fsm \<Rightarrow> fault + fsm" where
  "exec_GEN_NEW_TRAJ e s =
     (let (success, s1) = callKinodynamicReplan e (gen_start e s)
      in if success then changeFSMExecState EXEC_TRAJ ''FSM'' s1
         else changeFSMExecState GEN_NEW_TRAJ ''FSM'' s1)"

text \<open>The local \<open>t_cur\<close> of case \<open>EXEC_TRAJ\<close>: the time since the start of the trajectory,
  cut off at its duration by \<open>std::min\<close>.\<close>

definition exec_t_cur :: "LocalTrajData \<Rightarrow> real \<Rightarrow> real" where
  "exec_t_cur info curr_time = min (duration info) (curr_time - start_time info)"

definition exec_EXEC_TRAJ :: "env \<Rightarrow> fsm \<Rightarrow> fault + fsm" where
  "exec_EXEC_TRAJ e s =
     (let info = local_data s;
          t_cur = exec_t_cur info (now e);
          pos = evaluateDeBoorT (position_traj info) t_cur
      in if t_cur > duration info - 1 / 100 then
           changeFSMExecState WAIT_TARGET ''FSM'' (s\<lparr>have_target := False\<rparr>)
         else if vnorm (vsub (end_pt s) pos) < no_replan_thresh s then Inr s
         else if vnorm (vsub (start_pos info) pos) < replan_thresh s then Inr s
         else changeFSMExecState REPLAN_TRAJ ''FSM'' s)"

text \<open>The local \<open>t_cur\<close> of case \<open>REPLAN_TRAJ\<close>: the time since the start of the trajectory
  as it is.\<close>

definition replan_t_cur :: "LocalTrajData \<Rightarrow> real \<Rightarrow> real" where
  "replan_t_cur info curr_time = curr_time - start_time info"

text \<open>The start state of a replan, sampled from the active trajectory, and the replan
  message (case \<open>REPLAN_TRAJ\<close> up to the planner call).\<close>

definition replan_start :: "env \<Rightarrow> fsm \<Rightarrow> fsm" where
  "replan_start e s =
     (let info = local_data s;
          t_cur = replan_t_cur info (now e)
      in emit Replan_msg
           (s\<lparr>start_pt := evaluateDeBoorT (position_traj info) t_cur,
              start_vel := evaluateDeBoorT (velocity_traj info) t_cur,
              start_acc := evaluateDeBoorT (acceleration_traj info) t_cur,
              start_yaw := Vec3 (evaluateDeBoorT (yaw_traj info) t_cur)
                                (evaluateDeBoorT (yawdot_traj info) t_cur)
                                (evaluateDeBoorT (yawdotdot_traj info) t_cur)\<rparr>))"

definition exec_REPLAN_TRAJ :: "env \<Rightarrow> fsm \<Rightarrow> fault + fsm" where
  "exec_REPLAN_TRAJ e s =
     (let (success, s1) = callKinodynamicReplan e (replan_start e s)
      in if success then changeFSMExecState EXEC_TRAJ ''FSM'' s1
         else changeFSMExecState GEN_NEW_TRAJ ''FSM'' s1)"

text \<open>The \<open>switch\<close> has no case for \<open>REPLAN_NEW\<close> and no default.\<close>

definition exec_switch :: "env \<Rightarrow> fsm \<Rightarrow> fault + fsm" where
  "exec_switch e s =
     (case exec_state s of
        INIT \<Rightarrow> exec_INIT s
      | WAIT_TARGET \<Rightarrow> exec_WAIT_TARGET s
      | GEN_NEW_TRAJ \<Rightarrow> exec_GEN_NEW_TRAJ e s
      | EXEC_TRAJ \<Rightarrow> exec_EXEC_TRAJ e s
      | REPLAN_TRAJ \<Rightarrow> exec_REPLAN_TRAJ e s
      | REPLAN_NEW \<Rightarrow> Inr s)"

definition execFSMCallback :: "env \<Rightarrow> fsm \<Rightarrow> fault + fsm" where
  "execFSMCallback e s =
     (case fsm_count s of
        Inl f \<Rightarrow> Inl f
      | Inr s1 \<Rightarrow> exec_switch e s1)"

subsection \<open>The safety tick \<open>checkCollisionCallback\<close>\<close>

text \<open>The clearance query: the time-aware variant in a dynamic environment, else the static
  one with time \<open>-1.0\<close>.\<close>

definition clearance :: "env \<Rightarrow> fsm \<Rightarrow> Vector3d \<Rightarrow> real" where
  "clearance e s pt =
     (if dynamic e then evaluateCoarseEDT e pt (duration (local_data s))
      else evaluateCoarseEDT e pt (- 1.0))"

text \<open>The constants \<open>dr\<close>, \<open>dtheta\<close>, \<open>dz\<close> of the search and the point \<open>new_pt\<close> built in
  the innermost loop body.\<close>

definition dr :: real where "dr = 0.5"
definition dtheta :: real where "dtheta = 30"
definition dz :: real where "dz = 0.3"

definition candidate :: "Vector3d \<Rightarrow> real \<Rightarrow> real \<Rightarrow> real \<Rightarrow> Vector3d" where
  "candidate ep r theta nz =
     Vec3 (v0 ep + r * cos (theta / 57.3)) (v1 ep + r * sin (theta / 57.3)) (v2 ep + nz)"

text \<open>The loop body. The accumulator is the pair of the locals \<open>goal\<close> (not initialised
  before the loops: \<open>None\<close>) and \<open>max_dist\<close>.\<close>

definition try_candidate ::
  "env \<Rightarrow> fsm \<Rightarrow> real \<Rightarrow> real \<Rightarrow> real \<Rightarrow> Vector3d option \<times> real \<Rightarrow> Vector3d option \<times> real" where
  "try_candidate e s r theta nz acc =
     (let (goal, max_dist) = acc;
          new_pt = candidate (end_pt s) r theta nz;
          dist = clearance e s new_pt
      in if dist > max_dist then (Some new_pt, dist) else (goal, max_dist))"

text \<open>\<open>for (double nz = 1 * dz; nz >= -1 * dz; nz -= dz)\<close>\<close>

function loop_nz ::
  "env \<Rightarrow> fsm \<Rightarrow> real \<Rightarrow> real \<Rightarrow> real \<Rightarrow> Vector3d option \<times> real \<Rightarrow> Vector3d option \<times> real" where
  "loop_nz e s r theta nz acc =
     (if nz \<ge> - 1 * dz then loop_nz e s r theta (nz - dz) (try_candidate e s r theta nz acc)
      else acc)"
  by pat_completeness auto
termination
proof (relation "measure (\<lambda>(e, s, r, theta, nz, acc). nat \<lceil>(nz + 1) / dz\<rceil>)")
  show "wf (measure (\<lambda>(e::env, s::fsm, r::real, theta::real, nz::real,
              acc::Vector3d option \<times> real). nat \<lceil>(nz + 1) / dz\<rceil>))"
    by simp
next
  fix e :: env and s :: fsm and r theta nz :: real and acc :: "Vector3d option \<times> real"
  assume a: "- 1 * dz \<le> nz"
  have "(nz - dz + 1) / dz = (nz + 1) / dz - 1"
    by (simp add: dz_def field_simps)
  then have "\<lceil>(nz - dz + 1) / dz\<rceil> = \<lceil>(nz + 1) / dz\<rceil> - 1"
    by simp
  moreover have "0 < (nz + 1) / dz"
    using a by (simp add: dz_def)
  then have "0 < \<lceil>(nz + 1) / dz\<rceil>"
    by simp
  ultimately show "((e, s, r, theta, nz - dz, try_candidate e s r theta nz acc),
                    (e, s, r, theta, nz, acc))
      \<in> measure (\<lambda>(e, s, r, theta, nz, acc). nat \<lceil>(nz + 1) / dz\<rceil>)"
    by simp
qed

declare loop_nz.simps [simp del]

text \<open>\<open>for (double theta = -90; theta <= 270; theta += dtheta)\<close>\<close>

function loop_theta ::
  "env \<Rightarrow> fsm \<Rightarrow> real \<Rightarrow> real \<Rightarrow> Vector3d option \<times> real \<Rightarrow> Vector3d option \<times> real" where
  "loop_theta e s r theta acc =
     (if theta \<le> 270 then loop_theta e s r (theta + dtheta) (loop_nz e s r theta (1 * dz) acc)
      else acc)"
  by pat_completeness auto
termination
proof (relation "measure (\<lambda>(e, s, r, theta, acc). nat \<lceil>(300 - theta) / dtheta\<rceil>)")
  show "wf (measure (\<lambda>(e::env, s::fsm, r::real, theta::real,
              acc::Vector3d option \<times> real). nat \<lceil>(300 - theta) / dtheta\<rceil>))"
    by simp
next
  fix e :: env and s :: fsm and r theta :: real and acc :: "Vector3d option \<times> real"
  assume a: "theta \<le> 270"
  have "(300 - (theta + dtheta)) / dtheta = (300 - theta) / dtheta - 1"
    by (simp add: dtheta_def field_simps)
  then have "\<lceil>(300 - (theta + dtheta)) / dtheta\<rceil> = \<lceil>(300 - theta) / dtheta\<rceil> - 1"
    by simp
  moreover have "0 < (300 - theta) / dtheta"
    using a by (simp add: dtheta_def)
  then have "0 < \<lceil>(300 - theta) / dtheta\<rceil>"
    by simp
  ultimately show "((e, s, r, theta + dtheta, loop_nz e s r theta (1 * dz) acc),
                    (e, s, r, theta, acc))
      \<in> measure (\<lambda>(e, s, r, theta, acc). nat \<lceil>(300 - theta) / dtheta\<rceil>)"
    by simp
qed

declare loop_theta.simps [simp del]

text \<open>\<open>for (double r = dr; r <= 5 * dr + 1e-3; r += dr)\<close>\<close>

function loop_r ::
  "env \<Rightarrow> fsm \<Rightarrow> real \<Rightarrow> Vector3d option \<times> real \<Rightarrow> Vector3d option \<times> real" where
  "loop_r e s r acc =
     (if r \<le> 5 * dr + 1 / 1000 then loop_r e s (r + dr) (loop_theta e s r (- 90) acc)
      else acc)"
  by pat_completeness auto
termination
proof (relation "measure (\<lambda>(e, s, r, acc). nat \<lceil>(7 / 2 - r) / dr\<rceil>)")
  show "wf (measure (\<lambda>(e::env, s::fsm, r::real,
              acc::Vector3d option \<times> real). nat \<lceil>(7 / 2 - r) / dr\<rceil>))"
    by simp
next
  fix e :: env and s :: fsm and r :: real and acc :: "Vector3d option \<times> real"
  assume a: "r \<le> 5 * dr + 1 / 1000"
  have "(7 / 2 - (r + dr)) / dr = (7 / 2 - r) / dr - 1"
    by (simp add: dr_def field_simps)
  then have "\<lceil>(7 / 2 - (r + dr)) / dr\<rceil> = \<lceil>(7 / 2 - r) / dr\<rceil> - 1"
    by simp
  moreover have "0 < (7 / 2 - r) / dr"
    using a by (simp add: dr_def)
  then have "0 < \<lceil>(7 / 2 - r) / dr\<rceil>"
    by simp
  ultimately show "((e, s, r + dr, loop_theta e s r (- 90) acc), (e, s, r, acc))
      \<in> measure (\<lambda>(e, s, r, acc). nat \<lceil>(7 / 2 - r) / dr\<rceil>)"
    by simp
qed

declare loop_r.simps [simp del]

text \<open>The three nested loops, started with \<open>max_dist = -1.0\<close>.\<close>

definition goal_search :: "env \<Rightarrow> fsm \<Rightarrow> Vector3d option \<times> real" where
  "goal_search e s = loop_r e s dr (None, - 1.0)"

text \<open>The branch taken when the clearance of the goal is at most 0.3.\<close>

definition relocate_goal :: "env \<Rightarrow> fsm \<Rightarrow> fault + fsm" where
  "relocate_goal e s =
     (let (goal, max_dist) = goal_search e s
      in if max_dist > 0.3 then
           (case goal of
              None \<Rightarrow> Inl Uninitialised_read
            | Some g \<Rightarrow>
                (let s1 = (emit (Cout ''change goal, replan.'') s)
                            \<lparr>end_pt := g, have_target := True, end_vel := vzero\<rparr>
                 in case (if exec_state s1 = EXEC_TRAJ
                          then changeFSMExecState REPLAN_TRAJ ''SAFETY'' s1 else Inr s1) of
                      Inl f \<Rightarrow> Inl f
                    | Inr s2 \<Rightarrow> Inr (emit (DrawGoal (end_pt s2)) s2)))
         else
           (case changeFSMExecState REPLAN_TRAJ ''FSM''
                   (emit (Cout ''goal near collision, keep retry'') s) of
              Inl f \<Rightarrow> Inl f
            | Inr s1 \<Rightarrow> Inr (emit Replan_msg s1)))"

definition check_goal :: "env \<Rightarrow> fsm \<Rightarrow> fault + fsm" where
  "check_goal e s =
     (if have_target s then
        (let dist = clearance e s (end_pt s)
         in if dist \<le> 0.3 then relocate_goal e s else Inr s)
      else Inr s)"

definition check_traj :: "env \<Rightarrow> fsm \<Rightarrow> fault + fsm" where
  "check_traj e s =
     (if exec_state s = EXEC_TRAJ then
        (let (safe, dist) = checkTrajCollision e (local_data s)
         in if \<not> safe then
              changeFSMExecState REPLAN_TRAJ ''SAFETY'' (emit (Warn ''current traj in collision.'') s)
            else Inr s)
      else Inr s)"

definition checkCollisionCallback :: "env \<Rightarrow> fsm \<Rightarrow> fault + fsm" where
  "checkCollisionCallback e s =
     (case check_goal e s of
        Inl f \<Rightarrow> Inl f
      | Inr s1 \<Rightarrow> check_traj e s1)"

subsection \<open>Notions used in the statements\<close>

text \<open>In preset mode \<open>waypointCallback\<close> reads \<open>waypoints_[current_wp_]\<close> and divides by
  \<open>waypoint_num_\<close>: the read is inside the array and the divisor is not zero.\<close>

definition target_defined :: "fsm \<Rightarrow> bool" where
  "target_defined s =
     (target_type s = PRESET_TARGET \<longrightarrow>
        0 \<le> current_wp s \<and> current_wp s < 50 \<and> waypoint_num s \<noteq> 0)"

text \<open>\<open>s'\<close> differs from \<open>s\<close> at most in the tick counter and in what was emitted.\<close>

definition same_but_log :: "fsm \<Rightarrow> fsm \<Rightarrow> bool" where
  "same_but_log s s' = (s' = s\<lparr>fsm_num := fsm_num s', out := out s'\<rparr>)"

text \<open>The candidate grid as the specification describes it: radii \<open>0.5 * k\<close> for
  \<open>k = 1..5\<close>, azimuths from -90 to 270 degrees in steps of 30, vertical offsets 0.3, 0,
  -0.3; listed radius first, then azimuth, then offset. The point of the grid at radius
  \<open>r\<close>, azimuth \<open>theta\<close> and vertical offset \<open>nz\<close> from the goal \<open>ep\<close> lies at
  \<open>r * cos\<close> and \<open>r * sin\<close> of the azimuth in x and y and at \<open>nz\<close> in z, the azimuth
  taken to radians with the factor 1 / 57.3.\<close>

definition radii :: "real list" where
  "radii = map (\<lambda>k. 0.5 * real k) [1..<6]"

definition azimuths :: "real list" where
  "azimuths = map (\<lambda>j. - 90 + 30 * real j) [0..<13]"

definition heights :: "real list" where
  "heights = [0.3, 0, - 0.3]"

definition grid :: "(real \<times> real \<times> real) list" where
  "grid = List.product radii (List.product azimuths heights)"

definition grid_point :: "Vector3d \<Rightarrow> real \<times> real \<times> real \<Rightarrow> Vector3d" where
  "grid_point ep c =
     (case c of (r, theta, nz) \<Rightarrow>
        Vec3 (v0 ep + r * cos (theta / 57.3)) (v1 ep + r * sin (theta / 57.3)) (v2 ep + nz))"

definition grid_points :: "Vector3d \<Rightarrow> Vector3d list" where
  "grid_points ep = map (grid_point ep) grid"

text \<open>Tracking the maximum over a list of points: the point and the value are replaced on
  strict improvement only.\<close>

fun track_max ::
  "(Vector3d \<Rightarrow> real) \<Rightarrow> Vector3d list \<Rightarrow> Vector3d option \<times> real \<Rightarrow> Vector3d option \<times> real" where
  "track_max d [] acc = acc"
| "track_max d (p # ps) acc =
     track_max d ps (if d p > snd acc then (Some p, d p) else acc)"

text \<open>Consecutive ticks, each with the collaborators of its moment.\<close>

fun run_ticks :: "env list \<Rightarrow> fsm \<Rightarrow> fault + fsm" where
  "run_ticks [] s = Inr s"
| "run_ticks (e # es) s =
     (case execFSMCallback e s of
        Inl f \<Rightarrow> Inl f
      | Inr s' \<Rightarrow> run_ticks es s')"

text \<open>The outcome of the planner call that a tick in state \<open>GEN_NEW_TRAJ\<close>, respectively
  \<open>REPLAN_TRAJ\<close>, makes (the local \<open>success\<close>), and a planner that fails on every request.\<close>

definition gen_call_ok :: "env \<Rightarrow> fsm \<Rightarrow> bool" where
  "gen_call_ok e s = fst (callKinodynamicReplan e (gen_start e s))"

definition replan_call_ok :: "env \<Rightarrow> fsm \<Rightarrow> bool" where
  "replan_call_ok e s = fst (callKinodynamicReplan e (replan_start e s))"

definition planner_fails :: "env \<Rightarrow> bool" where
  "planner_fails e = (\<forall>sp sv sa ep ev ld. \<not> fst (kinodynamicReplan e sp sv sa ep ev ld))"

text \<open>The number of replan messages published so far.\<close>

definition replan_count :: "fsm \<Rightarrow> nat" where
  "replan_count s = count_list (out s) Replan_msg"

text \<open>The members after the constructor and \<open>init()\<close>; parameters and the members that are
  not initialised are arbitrary.\<close>

definition initial :: "fsm \<Rightarrow> bool" where
  "initial s =
     (exec_state s = INIT \<and> \<not> trigger s \<and> \<not> have_target s \<and> \<not> have_odom s \<and>
      current_wp s = 0 \<and> fsm_num s = 0 \<and> out s = [])"

text \<open>The states the node can be in: after construction, and after any callback that
  returned, with any message and any answers of the collaborators.\<close>

inductive reachable :: "fsm \<Rightarrow> bool" where
  reach_init: "initial s \<Longrightarrow> reachable s"
| reach_tick: "reachable s \<Longrightarrow> execFSMCallback e s = Inr s' \<Longrightarrow> reachable s'"
| reach_safety: "reachable s \<Longrightarrow> checkCollisionCallback e s = Inr s' \<Longrightarrow> reachable s'"
| reach_goal: "reachable s \<Longrightarrow> waypointCallback msg s = Inr s' \<Longrightarrow> reachable s'"
| reach_odom: "reachable s \<Longrightarrow> reachable (odometryCallback msg s)"

subsection \<open>Example data\<close>

definition curve_of :: "(real \<Rightarrow> 'a) \<Rightarrow> 'a NonUniformBspline" where
  "curve_of f = \<lparr>evaluateDeBoorT = f, getControlPoint = [], getKnot = [], getInterval = 1\<rparr>"

text \<open>A straight flight along x at height 1, started at time 100 and 10 seconds long.\<close>

definition example_traj :: LocalTrajData where
  "example_traj =
     \<lparr>traj_id = 1, duration = 10, start_time = 100, start_pos = Vec3 0 0 1,
      position_traj = curve_of (\<lambda>t. Vec3 t 0 1),
      velocity_traj = curve_of (\<lambda>t. Vec3 1 0 0),
      acceleration_traj = curve_of (\<lambda>t. Vec3 0 0 0),
      yaw_traj = curve_of (\<lambda>t. 0),
      yawdot_traj = curve_of (\<lambda>t. 0),
      yawdotdot_traj = curve_of (\<lambda>t. 0)\<rparr>"

text \<open>The node after construction, in manual-target mode with three preset waypoints.\<close>

definition example_fsm :: fsm where
  "example_fsm =
     \<lparr>target_type = 1, no_replan_thresh = 2, replan_thresh = 3 / 2,
      waypoints = (\<lambda>i. Vec3 (real i) 0 1), waypoint_num = 3,
      trigger = False, have_target = False, have_odom = False, exec_state = INIT,
      odom_pos = Vec3 0 0 0, odom_vel = Vec3 0 0 0, odom_orient = Quat 1 0 0 0,
      start_pt = Vec3 0 0 0, start_vel = Vec3 0 0 0, start_acc = Vec3 0 0 0,
      start_yaw = Vec3 0 0 0, end_pt = Vec3 0 0 0, end_vel = Vec3 0 0 0,
      current_wp = 0, fsm_num = 0, local_data = example_traj, out = []\<rparr>"

text \<open>Collaborators: a planner that fails, a planner that succeeds with the example
  trajectory, a static distance field with clearance 0.1 everywhere.\<close>

definition example_env :: env where
  "example_env =
     \<lparr>now = 105,
      kinodynamicReplan = (\<lambda>sp sv sa ep ev ld. (False, ld)),
      planYaw = (\<lambda>y ld. ld),
      checkTrajCollision = (\<lambda>ld. (True, 1)),
      dynamic = False,
      evaluateCoarseEDT = (\<lambda>pt t. 1 / 10),
      atan2 = (\<lambda>y x. 0)\<rparr>"

definition example_env_ok :: env where
  "example_env_ok = example_env\<lparr>kinodynamicReplan := (\<lambda>sp sv sa ep ev ld. (True, example_traj))\<rparr>"

text \<open>A node in flight whose goal is at (0, 0, 1), and a distance field with clearance 0.5
  above height 1.2 and 0.1 below.\<close>

definition unsafe_fsm :: fsm where
  "unsafe_fsm = example_fsm\<lparr>exec_state := EXEC_TRAJ, trigger := True, have_odom := True,
                            have_target := True, end_pt := Vec3 0 0 1\<rparr>"

definition example_env_above :: env where
  "example_env_above =
     example_env\<lparr>evaluateCoarseEDT := (\<lambda>pt t. if v2 pt > 6 / 5 then 1 / 2 else 1 / 10)\<rparr>"

section \<open>Properties\<close>

subsection \<open>Auxiliary facts\<close>

lemma emit_fields [simp]:
  "exec_state (emit ev s) = exec_state s"
  "have_target (emit ev s) = have_target s"
  "trigger (emit ev s) = trigger s"
  "have_odom (emit ev s) = have_odom s"
  "end_pt (emit ev s) = end_pt s"
  "end_vel (emit ev s) = end_vel s"
  "current_wp (emit ev s) = current_wp s"
  "local_data (emit ev s) = local_data s"
  "target_type (emit ev s) = target_type s"
  "waypoint_num (emit ev s) = waypoint_num s"
  "waypoints (emit ev s) = waypoints s"
  "no_replan_thresh (emit ev s) = no_replan_thresh s"
  "replan_thresh (emit ev s) = replan_thresh s"
  "odom_pos (emit ev s) = odom_pos s"
  "odom_vel (emit ev s) = odom_vel s"
  "odom_orient (emit ev s) = odom_orient s"
  "start_pt (emit ev s) = start_pt s"
  "start_vel (emit ev s) = start_vel s"
  "start_acc (emit ev s) = start_acc s"
  "start_yaw (emit ev s) = start_yaw s"
  "fsm_num (emit ev s) = fsm_num s"
  "out (emit ev s) = out s @ [ev]"
  by (simp_all add: emit_def)

lemma changeFSMExecState_Inr:
  assumes "exec_state s \<noteq> REPLAN_NEW" "new_state \<noteq> REPLAN_NEW"
  shows "changeFSMExecState new_state pos_call s =
     Inr (emit (Cout (''['' @ pos_call @ '']: from '' @ state_str ! state_int (exec_state s) @ '' to ''
                                 @ state_str ! state_int new_state)) (s\<lparr>exec_state := new_state\<rparr>))"
proof -
  have "state_int (exec_state s) < length state_str" using assms(1) by (cases "exec_state s") (simp_all add: state_str_def)
  moreover have "state_int new_state < length state_str" using assms(2) by (cases new_state) (simp_all add: state_str_def)
  ultimately show ?thesis unfolding changeFSMExecState_def Let_def by simp
qed

lemma fsm_count_Inr:
  assumes "exec_state s \<noteq> REPLAN_NEW"
  shows "\<exists>s1. fsm_count s = Inr s1 \<and> same_but_log s s1"
proof -
  have "state_int (exec_state s) < length state_str" using assms by (cases "exec_state s") (simp_all add: state_str_def)
  then show ?thesis
    unfolding fsm_count_def printFSMExecState_def Let_def same_but_log_def emit_def
    by simp
qed

lemma same_but_logD:
  "same_but_log s s' \<Longrightarrow> \<exists>n l. s' = s\<lparr>fsm_num := n, out := l\<rparr>"
  unfolding same_but_log_def by blast

lemma select_target_Inr:
  assumes "target_defined s"
  shows "\<exists>s2. select_target p s = Inr s2 \<and> exec_state s2 = exec_state s \<and> trigger s2 = trigger s \<and>
     end_pt s2 = (if target_type s = MANUAL_TARGET then Vec3 (v0 p) (v1 p) 1
                  else if target_type s = PRESET_TARGET then waypoints s (nat (current_wp s))
                  else end_pt s)"
  using assms by (simp add: select_target_def target_defined_def)

subsection \<open>Facts about the tick\<close>

lemma callKinodynamicReplan_fst:
  "fst (callKinodynamicReplan e s) =
     fst (kinodynamicReplan e (start_pt s) (start_vel s) (start_acc s) (end_pt s) (end_vel s) (local_data s))"
  by (simp add: callKinodynamicReplan_def Let_def split: prod.splits)

lemma callKinodynamicReplan_state:
  "exec_state (snd (callKinodynamicReplan e s)) = exec_state s"
  by (simp add: callKinodynamicReplan_def Let_def split: prod.splits)

lemma callKinodynamicReplan_count:
  "replan_count (snd (callKinodynamicReplan e s)) = replan_count s"
  by (simp add: callKinodynamicReplan_def Let_def replan_count_def split: prod.splits)

lemma gen_call_ok_log: "same_but_log s s1 \<Longrightarrow> gen_call_ok e s1 = gen_call_ok e s"
  by (drule same_but_logD) (auto simp add: gen_call_ok_def callKinodynamicReplan_fst gen_start_def Let_def)

lemma replan_call_ok_log: "same_but_log s s1 \<Longrightarrow> replan_call_ok e s1 = replan_call_ok e s"
  by (drule same_but_logD) (auto simp add: replan_call_ok_def callKinodynamicReplan_fst replan_start_def Let_def)

lemma same_but_log_count: "same_but_log s s1 \<Longrightarrow> exec_state s1 = exec_state s"
  by (drule same_but_logD) auto

lemma exec_GEN_NEW_TRAJ_result:
  assumes "exec_state s = GEN_NEW_TRAJ"
  shows "\<exists>s'. exec_GEN_NEW_TRAJ e s = Inr s' \<and>
     exec_state s' = (if gen_call_ok e s then EXEC_TRAJ else GEN_NEW_TRAJ) \<and>
     replan_count s' = replan_count s"
proof -
  obtain ok s1 where c: "callKinodynamicReplan e (gen_start e s) = (ok, s1)"
    by (cases "callKinodynamicReplan e (gen_start e s)")
  have ok: "ok = gen_call_ok e s" using c by (simp add: gen_call_ok_def)
  have "exec_state s1 = exec_state (gen_start e s)"
    using callKinodynamicReplan_state [of e "gen_start e s"] c by simp
  then have ne: "exec_state s1 \<noteq> REPLAN_NEW" using assms by (simp add: gen_start_def Let_def)
  have "replan_count s1 = replan_count (gen_start e s)"
    using callKinodynamicReplan_count [of e "gen_start e s"] c by simp
  then have rc: "replan_count s1 = replan_count s" by (simp add: gen_start_def Let_def replan_count_def)
  show ?thesis
    unfolding exec_GEN_NEW_TRAJ_def c
    using ok rc by (simp add: changeFSMExecState_Inr [OF ne] replan_count_def)
qed

lemma replan_start_count: "replan_count (replan_start e s) = replan_count s + 1"
  by (simp add: replan_start_def Let_def replan_count_def)

lemma exec_REPLAN_TRAJ_result:
  assumes "exec_state s = REPLAN_TRAJ"
  shows "\<exists>s'. exec_REPLAN_TRAJ e s = Inr s' \<and>
     exec_state s' = (if replan_call_ok e s then EXEC_TRAJ else GEN_NEW_TRAJ) \<and>
     replan_count s' = replan_count s + 1"
proof -
  obtain ok s1 where c: "callKinodynamicReplan e (replan_start e s) = (ok, s1)"
    by (cases "callKinodynamicReplan e (replan_start e s)")
  have ok: "ok = replan_call_ok e s" using c by (simp add: replan_call_ok_def)
  have "exec_state s1 = exec_state (replan_start e s)"
    using callKinodynamicReplan_state [of e "replan_start e s"] c by simp
  then have ne: "exec_state s1 \<noteq> REPLAN_NEW" using assms by (simp add: replan_start_def Let_def)
  have "replan_count s1 = replan_count (replan_start e s)"
    using callKinodynamicReplan_count [of e "replan_start e s"] c by simp
  then have rc: "replan_count s1 = replan_count s + 1" by (simp add: replan_start_count)
  show ?thesis
    unfolding exec_REPLAN_TRAJ_def c
    using ok rc by (simp add: changeFSMExecState_Inr [OF ne] replan_count_def)
qed

lemma same_but_log_replan_count_tick:
  assumes "fsm_count s = Inr s1"
  shows "replan_count s1 = replan_count s"
  using assms
  by (auto simp add: fsm_count_def printFSMExecState_def Let_def replan_count_def emit_def
      split: if_splits)

lemma tick_GEN_NEW_TRAJ:
  assumes "exec_state s = GEN_NEW_TRAJ"
  shows "\<exists>s'. execFSMCallback e s = Inr s' \<and>
     exec_state s' = (if gen_call_ok e s then EXEC_TRAJ else GEN_NEW_TRAJ) \<and>
     replan_count s' = replan_count s"
proof -
  have ne: "exec_state s \<noteq> REPLAN_NEW" using assms by simp
  from fsm_count_Inr [OF ne] obtain s1 where c: "fsm_count s = Inr s1" and sb: "same_but_log s s1"
    by blast
  have st: "exec_state s1 = GEN_NEW_TRAJ" using same_but_log_count [OF sb] assms by simp
  have cb: "execFSMCallback e s = exec_GEN_NEW_TRAJ e s1"
    by (simp add: execFSMCallback_def c exec_switch_def st)
  show ?thesis
    unfolding cb
    using exec_GEN_NEW_TRAJ_result [OF st, of e] gen_call_ok_log [OF sb, of e]
      same_but_log_replan_count_tick [OF c]
    by simp
qed

lemma tick_REPLAN_TRAJ:
  assumes "exec_state s = REPLAN_TRAJ"
  shows "\<exists>s'. execFSMCallback e s = Inr s' \<and>
     exec_state s' = (if replan_call_ok e s then EXEC_TRAJ else GEN_NEW_TRAJ) \<and>
     replan_count s' = replan_count s + 1"
proof -
  have ne: "exec_state s \<noteq> REPLAN_NEW" using assms by simp
  from fsm_count_Inr [OF ne] obtain s1 where c: "fsm_count s = Inr s1" and sb: "same_but_log s s1"
    by blast
  have st: "exec_state s1 = REPLAN_TRAJ" using same_but_log_count [OF sb] assms by simp
  have cb: "execFSMCallback e s = exec_REPLAN_TRAJ e s1"
    by (simp add: execFSMCallback_def c exec_switch_def st)
  show ?thesis
    unfolding cb
    using exec_REPLAN_TRAJ_result [OF st, of e] replan_call_ok_log [OF sb, of e]
      same_but_log_replan_count_tick [OF c]
    by simp
qed

lemma planner_fails_gen: "planner_fails e \<Longrightarrow> \<not> gen_call_ok e s"
  by (simp add: planner_fails_def gen_call_ok_def callKinodynamicReplan_fst)

lemma run_ticks_failing:
  assumes "\<forall>e \<in> set es. planner_fails e" "exec_state s = GEN_NEW_TRAJ"
  shows "\<exists>s'. run_ticks es s = Inr s' \<and> exec_state s' = GEN_NEW_TRAJ"
  using assms
proof (induction es arbitrary: s)
  case Nil
  then show ?case by simp
next
  case (Cons e es)
  from Cons.prems(1) have "\<not> gen_call_ok e s" by (simp add: planner_fails_gen)
  with tick_GEN_NEW_TRAJ [OF Cons.prems(2), of e]
  obtain s1 where t: "execFSMCallback e s = Inr s1" and st: "exec_state s1 = GEN_NEW_TRAJ"
    by auto
  from Cons.IH [OF _ st] Cons.prems(1) show ?case by (simp add: t)
qed

subsection \<open>Facts about the goal search\<close>

lemma try_candidate_eq:
  "try_candidate e s r theta nz acc =
     (if clearance e s (candidate (end_pt s) r theta nz) > snd acc
      then (Some (candidate (end_pt s) r theta nz), clearance e s (candidate (end_pt s) r theta nz))
      else acc)"
  by (cases acc) (simp add: try_candidate_def Let_def)

lemma loop_nz_unroll:
  "loop_nz e s r theta (1 * dz) acc = fold (try_candidate e s r theta) heights acc"
proof -
  have "loop_nz e s r theta (3 / 10) acc =
      try_candidate e s r theta (- (3 / 10)) (try_candidate e s r theta 0 (try_candidate e s r theta (3 / 10) acc))"
    by (simp add: loop_nz.simps [of _ _ _ _ "3 / 10"] loop_nz.simps [of _ _ _ _ "0"]
        loop_nz.simps [of _ _ _ _ "- (3 / 10)"] loop_nz.simps [of _ _ _ _ "- (3 / 5)"] dz_def)
  then show ?thesis by (simp add: heights_def dz_def)
qed

lemma azimuths_eq:
  "azimuths = [- 90, - 60, - 30, 0, 30, 60, 90, 120, 150, 180, 210, 240, 270]"
  by (simp add: azimuths_def upt_rec [of _ 13] )

lemma radii_eq: "radii = [1 / 2, 1, 3 / 2, 2, 5 / 2]"
  by (simp add: radii_def upt_rec [of _ 6])

lemma loop_theta_unroll:
  "loop_theta e s r (- 90) acc = fold (\<lambda>theta. loop_nz e s r theta (1 * dz)) azimuths acc"
  unfolding azimuths_eq by (simp add: loop_theta.simps dtheta_def)

lemma loop_r_unroll:
  "loop_r e s dr acc = fold (\<lambda>r. loop_theta e s r (- 90)) radii acc"
  unfolding radii_eq by (simp add: loop_r.simps dr_def)

lemma fold_product:
  "fold f (List.product xs ys) = fold (\<lambda>x. fold (\<lambda>y. f (x, y)) ys) xs"
proof
  fix a
  show "fold f (List.product xs ys) a = fold (\<lambda>x. fold (\<lambda>y. f (x, y)) ys) xs a"
    by (induction xs arbitrary: a) (simp_all add: fold_map comp_def)
qed

lemma fold_try_candidate:
  "fold (\<lambda>c. case c of (r, theta, nz) \<Rightarrow> try_candidate e s r theta nz) cs acc =
     track_max (clearance e s) (map (grid_point (end_pt s)) cs) acc"
proof (induction cs arbitrary: acc)
  case Nil
  then show ?case by simp
next
  case (Cons c cs)
  let ?F = "\<lambda>c. case c of (r, theta, nz) \<Rightarrow> try_candidate e s r theta nz"
  obtain r theta nz where c: "c = (r, theta, nz)" by (cases c)
  have step: "?F c acc =
      (if clearance e s (grid_point (end_pt s) c) > snd acc
       then (Some (grid_point (end_pt s) c), clearance e s (grid_point (end_pt s) c))
       else acc)"
    by (simp add: c try_candidate_eq grid_point_def candidate_def)
  have "fold ?F (c # cs) acc = fold ?F cs (?F c acc)" by simp
  also have "\<dots> = track_max (clearance e s) (map (grid_point (end_pt s)) cs) (?F c acc)"
    by (rule Cons.IH)
  also have "\<dots> = track_max (clearance e s) (map (grid_point (end_pt s)) (c # cs)) acc"
    unfolding step by simp
  finally show ?case .
qed

lemma goal_search_grid:
  "goal_search e s = track_max (clearance e s) (grid_points (end_pt s)) (None, - 1)"
proof -
  have nz: "\<And>r theta. (\<lambda>acc. loop_nz e s r theta (1 * dz) acc) = fold (try_candidate e s r theta) heights"
    by (rule ext) (rule loop_nz_unroll)
  have th: "\<And>r. (\<lambda>acc. loop_theta e s r (- 90) acc) =
      fold (\<lambda>theta. fold (try_candidate e s r theta) heights) azimuths"
    by (rule ext) (simp only: loop_theta_unroll nz)
  have "goal_search e s =
      fold (\<lambda>r. fold (\<lambda>theta. fold (try_candidate e s r theta) heights) azimuths) radii (None, - 1)"
    by (simp only: goal_search_def loop_r_unroll th) simp
  also have "\<dots> = fold (\<lambda>c. case c of (r, theta, nz) \<Rightarrow> try_candidate e s r theta nz) grid (None, - 1)"
    by (simp add: grid_def fold_product)
  finally show ?thesis by (simp add: fold_try_candidate grid_points_def)
qed

lemma track_max_ge: "snd acc \<le> snd (track_max d ps acc)"
proof (induction ps arbitrary: acc)
  case Nil
  then show ?case by simp
next
  case (Cons p ps)
  have "snd acc \<le> snd (if d p > snd acc then (Some p, d p) else acc)" by simp
  also have "\<dots> \<le> snd (track_max d ps (if d p > snd acc then (Some p, d p) else acc))"
    by (rule Cons.IH)
  finally show ?case by simp
qed

lemma track_max_upper: "p \<in> set ps \<Longrightarrow> d p \<le> snd (track_max d ps acc)"
proof (induction ps arbitrary: acc)
  case Nil
  then show ?case by simp
next
  case (Cons q ps)
  let ?acc = "if d q > snd acc then (Some q, d q) else acc"
  show ?case
  proof (cases "p = q")
    case True
    have "d q \<le> snd ?acc" by simp
    also have "\<dots> \<le> snd (track_max d ps ?acc)" by (rule track_max_ge)
    finally show ?thesis using True by simp
  next
    case False
    with Cons.prems have "p \<in> set ps" by simp
    from Cons.IH [OF this, of ?acc] show ?thesis by simp
  qed
qed

lemma track_max_in: "snd (track_max d ps acc) \<in> insert (snd acc) (d ` set ps)"
proof (induction ps arbitrary: acc)
  case Nil
  then show ?case by simp
next
  case (Cons q ps)
  let ?acc = "if d q > snd acc then (Some q, d q) else acc"
  have "snd (track_max d ps ?acc) \<in> insert (snd ?acc) (d ` set ps)" by (rule Cons.IH)
  moreover have "snd ?acc = snd acc \<or> snd ?acc = d q" by simp
  ultimately show ?case by auto
qed

lemma track_max_Max:
  "snd (track_max d ps acc) = Max (insert (snd acc) (d ` set ps))"
proof (rule sym, rule Max_eqI)
  show "finite (insert (snd acc) (d ` set ps))" by simp
  show "snd (track_max d ps acc) \<in> insert (snd acc) (d ` set ps)" by (rule track_max_in)
  fix y assume "y \<in> insert (snd acc) (d ` set ps)"
  then show "y \<le> snd (track_max d ps acc)"
    using track_max_ge [of acc d ps] track_max_upper [of _ ps d acc] by auto
qed

lemma track_max_first:
  "fst (track_max d ps acc) =
     (if snd (track_max d ps acc) > snd acc
      then List.find (\<lambda>p. d p = snd (track_max d ps acc)) ps
      else fst acc)"
proof (induction ps arbitrary: acc)
  case Nil
  then show ?case by simp
next
  case (Cons p ps)
  let ?M = "snd (track_max d (p # ps) acc)"
  show ?case
  proof (cases "d p > snd acc")
    case True
    have M: "?M = snd (track_max d ps (Some p, d p))" using True by simp
    have ge: "d p \<le> ?M" unfolding M using track_max_ge [of "(Some p, d p)" d ps] by simp
    have "fst (track_max d (p # ps) acc) = fst (track_max d ps (Some p, d p))" using True by simp
    also have "\<dots> = (if ?M > d p then List.find (\<lambda>q. d q = ?M) ps else Some p)"
      using Cons.IH [of "(Some p, d p)"] M by simp
    also have "\<dots> = List.find (\<lambda>q. d q = ?M) (p # ps)" using ge by auto
    finally show ?thesis using True ge by auto
  next
    case False
    have M: "?M = snd (track_max d ps acc)" using False by simp
    have "fst (track_max d (p # ps) acc) = fst (track_max d ps acc)" using False by simp
    also have "\<dots> = (if ?M > snd acc then List.find (\<lambda>q. d q = ?M) ps else fst acc)"
      using Cons.IH [of acc] M by simp
    also have "\<dots> = (if ?M > snd acc then List.find (\<lambda>q. d q = ?M) (p # ps) else fst acc)"
      using False by auto
    finally show ?thesis .
  qed
qed

lemma track_max_cong:
  "\<forall>p \<in> set ps. d1 p = d2 p \<Longrightarrow> track_max d1 ps acc = track_max d2 ps acc"
  by (induction ps arbitrary: acc) simp_all

lemma track_max_Some:
  assumes "snd (track_max d ps (None, m)) > m"
  shows "\<exists>p. fst (track_max d ps (None, m)) = Some p \<and> p \<in> set ps \<and> d p = snd (track_max d ps (None, m))"
proof -
  let ?M = "snd (track_max d ps (None, m))"
  have "?M = Max (insert m (d ` set ps))" by (simp add: track_max_Max)
  then have "?M \<in> insert m (d ` set ps)" using Max_in [of "insert m (d ` set ps)"] by simp
  with assms obtain q where q: "q \<in> set ps" "d q = ?M" by auto
  then have "List.find (\<lambda>p. d p = ?M) ps \<noteq> None" by (auto simp add: find_None_iff)
  then obtain p where p: "List.find (\<lambda>p. d p = ?M) ps = Some p" by auto
  then have "p \<in> set ps \<and> d p = ?M" by (auto simp add: find_Some_iff)
  moreover have "fst (track_max d ps (None, m)) = Some p"
    using track_max_first [of d ps "(None, m)"] assms p by simp
  ultimately show ?thesis by blast
qed

subsection \<open>Facts about the safety tick\<close>

lemma grid_points_nonempty: "set (grid_points ep) \<noteq> {}"
  by (simp add: grid_points_def grid_def radii_eq azimuths_eq heights_def)

lemma grid_points_not_Nil: "grid_points ep \<noteq> []"
  using grid_points_nonempty [of ep] by simp

lemma constant_clearance_image:
  assumes "\<And>p. d p = c"
  shows "d ` set (grid_points ep) = {c}"
proof -
  have "d = (\<lambda>p. c)" using assms by (rule ext)
  then show ?thesis by (simp add: image_constant_conv grid_points_not_Nil)
qed

lemma length_grid: "length grid = 195"
  by (simp add: grid_def radii_eq azimuths_eq heights_def)

lemma goal_search_Max:
  "snd (goal_search e s) = max (- 1) (Max (clearance e s ` set (grid_points (end_pt s))))"
proof -
  have "snd (goal_search e s) = Max (insert (- 1) (clearance e s ` set (grid_points (end_pt s))))"
    by (simp add: goal_search_grid track_max_Max)
  also have "\<dots> = max (- 1) (Max (clearance e s ` set (grid_points (end_pt s))))"
    using grid_points_nonempty [of "end_pt s"] by (simp add: Max_insert)
  finally show ?thesis .
qed

lemma goal_search_first:
  "fst (goal_search e s) =
     (if snd (goal_search e s) > - 1
      then List.find (\<lambda>p. clearance e s p = snd (goal_search e s)) (grid_points (end_pt s))
      else None)"
  using track_max_first [of "clearance e s" "grid_points (end_pt s)" "(None, - 1)"]
  by (simp add: goal_search_grid)

lemma goal_search_Some:
  assumes "snd (goal_search e s) > - 1"
  shows "\<exists>g. fst (goal_search e s) = Some g \<and> g \<in> set (grid_points (end_pt s)) \<and>
     clearance e s g = snd (goal_search e s)"
  using track_max_Some [of "- 1" "clearance e s" "grid_points (end_pt s)"] assms
  by (simp add: goal_search_grid)

lemma relocate_goal_found:
  assumes "snd (goal_search e s) > 0.3"
  shows "\<exists>g s'. fst (goal_search e s) = Some g \<and> relocate_goal e s = Inr s' \<and> end_pt s' = g \<and>
     have_target s' \<and> end_vel s' = vzero \<and>
     exec_state s' = (if exec_state s = EXEC_TRAJ then REPLAN_TRAJ else exec_state s) \<and>
     replan_count s' = replan_count s"
proof -
  from assms have "snd (goal_search e s) > - 1" by simp
  from goal_search_Some [OF this] obtain g where g: "fst (goal_search e s) = Some g" by blast
  obtain m where gs: "goal_search e s = (Some g, m)" using g by (cases "goal_search e s") simp
  have m: "m > 0.3" using assms gs by simp
  define s1 where "s1 = (emit (Cout ''change goal, replan.'') s)\<lparr>end_pt := g, have_target := True, end_vel := vzero\<rparr>"
  have f1: "exec_state s1 = exec_state s" "end_pt s1 = g" "have_target s1" "end_vel s1 = vzero"
    "replan_count s1 = replan_count s"
    by (simp_all add: s1_def replan_count_def)
  have r: "relocate_goal e s =
      (case (if exec_state s1 = EXEC_TRAJ then changeFSMExecState REPLAN_TRAJ ''SAFETY'' s1 else Inr s1) of
         Inl f \<Rightarrow> Inl f | Inr s2 \<Rightarrow> Inr (emit (DrawGoal (end_pt s2)) s2))"
    using m by (simp add: relocate_goal_def gs Let_def s1_def)
  show ?thesis
  proof (cases "exec_state s = EXEC_TRAJ")
    case True
    then have ne: "exec_state s1 \<noteq> REPLAN_NEW" using f1(1) by simp
    show ?thesis
      unfolding r using True f1 g
      by (simp add: changeFSMExecState_Inr [OF ne] replan_count_def)
  next
    case False
    then show ?thesis unfolding r using f1 g by (simp add: replan_count_def)
  qed
qed

lemma relocate_goal_not_found:
  assumes "\<not> snd (goal_search e s) > 0.3" "exec_state s \<noteq> REPLAN_NEW"
  shows "\<exists>s'. relocate_goal e s = Inr s' \<and> end_pt s' = end_pt s \<and> have_target s' = have_target s \<and>
     end_vel s' = end_vel s \<and> exec_state s' = REPLAN_TRAJ \<and> replan_count s' = replan_count s + 1"
proof -
  obtain g m where gs: "goal_search e s = (g, m)" by (cases "goal_search e s")
  have m: "\<not> m > 0.3" using assms(1) gs by simp
  define s0 where "s0 = emit (Cout ''goal near collision, keep retry'') s"
  have ne: "exec_state s0 \<noteq> REPLAN_NEW" using assms(2) by (simp add: s0_def)
  have r: "relocate_goal e s =
      (case changeFSMExecState REPLAN_TRAJ ''FSM'' s0 of Inl f \<Rightarrow> Inl f | Inr s1 \<Rightarrow> Inr (emit Replan_msg s1))"
    using m by (simp add: relocate_goal_def gs Let_def s0_def)
  show ?thesis
    unfolding r
    by (simp add: changeFSMExecState_Inr [OF ne] replan_count_def) (simp add: s0_def)
qed

lemma check_traj_skip: "exec_state s \<noteq> EXEC_TRAJ \<Longrightarrow> check_traj e s = Inr s"
  by (simp add: check_traj_def)

lemma check_traj_EXEC:
  assumes "exec_state s = EXEC_TRAJ"
  shows "\<exists>s'. check_traj e s = Inr s' \<and> (exec_state s' = EXEC_TRAJ \<or> exec_state s' = REPLAN_TRAJ) \<and>
     replan_count s' = replan_count s"
proof -
  obtain safe dist where c: "checkTrajCollision e (local_data s) = (safe, dist)"
    by (cases "checkTrajCollision e (local_data s)")
  define s0 where "s0 = emit (Warn ''current traj in collision.'') s"
  have ne: "exec_state s0 \<noteq> REPLAN_NEW" using assms by (simp add: s0_def)
  have r: "check_traj e s = (if \<not> safe then changeFSMExecState REPLAN_TRAJ ''SAFETY'' s0 else Inr s)"
    using assms by (simp add: check_traj_def c s0_def)
  show ?thesis
    unfolding r using assms
    by (simp add: changeFSMExecState_Inr [OF ne] replan_count_def) (simp add: s0_def)
qed

lemma checkCollisionCallback_relocation:
  assumes "have_target s" "clearance e s (end_pt s) \<le> 0.3" "exec_state s \<noteq> REPLAN_NEW"
  shows "\<exists>s'. checkCollisionCallback e s = Inr s' \<and>
     (if snd (goal_search e s) > 0.3 then
        fst (goal_search e s) = Some (end_pt s') \<and> have_target s' \<and> end_vel s' = vzero \<and>
        exec_state s' = (if exec_state s = EXEC_TRAJ then REPLAN_TRAJ else exec_state s) \<and>
        replan_count s' = replan_count s
      else
        end_pt s' = end_pt s \<and> have_target s' \<and> end_vel s' = end_vel s \<and>
        exec_state s' = REPLAN_TRAJ \<and> replan_count s' = replan_count s + 1)"
proof -
  have cg: "check_goal e s = relocate_goal e s"
    using assms(1,2) by (simp add: check_goal_def Let_def)
  show ?thesis
  proof (cases "snd (goal_search e s) > 0.3")
    case True
    from relocate_goal_found [OF True] obtain g s1 where
      r: "fst (goal_search e s) = Some g" "relocate_goal e s = Inr s1" "end_pt s1 = g"
         "have_target s1" "end_vel s1 = vzero"
         "exec_state s1 = (if exec_state s = EXEC_TRAJ then REPLAN_TRAJ else exec_state s)"
         "replan_count s1 = replan_count s"
      by blast
    have "exec_state s1 \<noteq> EXEC_TRAJ" using r(6) by simp
    then have "checkCollisionCallback e s = Inr s1"
      by (simp add: checkCollisionCallback_def cg r(2) check_traj_skip)
    with True r show ?thesis by simp
  next
    case False
    from relocate_goal_not_found [OF False assms(3)] obtain s1 where
      r: "relocate_goal e s = Inr s1" "end_pt s1 = end_pt s" "have_target s1 = have_target s"
         "end_vel s1 = end_vel s" "exec_state s1 = REPLAN_TRAJ" "replan_count s1 = replan_count s + 1"
      by blast
    have "exec_state s1 \<noteq> EXEC_TRAJ" using r(5) by simp
    then have "checkCollisionCallback e s = Inr s1"
      by (simp add: checkCollisionCallback_def cg r(1) check_traj_skip)
    with False r assms(1) show ?thesis by simp
  qed
qed

lemma checkCollisionCallback_total:
  assumes "exec_state s \<noteq> REPLAN_NEW"
  shows "\<exists>s'. checkCollisionCallback e s = Inr s' \<and> exec_state s' \<noteq> REPLAN_NEW"
proof (cases "have_target s \<and> clearance e s (end_pt s) \<le> 0.3")
  case True
  with checkCollisionCallback_relocation [of s e] assms
  obtain s' where "checkCollisionCallback e s = Inr s'"
    and "if snd (goal_search e s) > 0.3
         then exec_state s' = (if exec_state s = EXEC_TRAJ then REPLAN_TRAJ else exec_state s)
         else exec_state s' = REPLAN_TRAJ"
    by (auto split: if_splits)
  with assms show ?thesis by (auto split: if_splits)
next
  case False
  then have cg: "check_goal e s = Inr s" by (auto simp add: check_goal_def Let_def)
  show ?thesis
  proof (cases "exec_state s = EXEC_TRAJ")
    case True
    from check_traj_EXEC [OF True, of e] show ?thesis
      by (auto simp add: checkCollisionCallback_def cg)
  next
    case False
    with assms show ?thesis by (simp add: checkCollisionCallback_def cg check_traj_skip)
  qed
qed

lemma checkCollisionCallback_no_relocation:
  assumes "\<not> (have_target s \<and> clearance e s (end_pt s) \<le> 0.3)" "exec_state s \<noteq> REPLAN_NEW"
  shows "\<exists>s'. checkCollisionCallback e s = Inr s' \<and> replan_count s' = replan_count s"
proof -
  from assms(1) have cg: "check_goal e s = Inr s" by (auto simp add: check_goal_def Let_def)
  show ?thesis
  proof (cases "exec_state s = EXEC_TRAJ")
    case True
    from check_traj_EXEC [OF True, of e] show ?thesis
      by (auto simp add: checkCollisionCallback_def cg)
  next
    case False
    then show ?thesis by (simp add: checkCollisionCallback_def cg check_traj_skip)
  qed
qed

subsection \<open>Every tick returns; reachable states\<close>

lemma tick_EXEC_TRAJ_state:
  assumes "exec_state s = EXEC_TRAJ"
  shows "\<exists>s'. execFSMCallback e s = Inr s' \<and>
     (exec_state s' = WAIT_TARGET \<or> exec_state s' = EXEC_TRAJ \<or> exec_state s' = REPLAN_TRAJ) \<and>
     replan_count s' = replan_count s"
proof -
  have ne: "exec_state s \<noteq> REPLAN_NEW" using assms by simp
  from fsm_count_Inr [OF ne] obtain s1 where c: "fsm_count s = Inr s1" and sb: "same_but_log s s1"
    by blast
  have st: "exec_state s1 = EXEC_TRAJ" using same_but_log_count [OF sb] assms by simp
  have rc: "replan_count s1 = replan_count s" by (rule same_but_log_replan_count_tick [OF c])
  have cb: "execFSMCallback e s = exec_EXEC_TRAJ e s1"
    by (simp add: execFSMCallback_def c exec_switch_def st)
  have ne1: "exec_state s1 \<noteq> REPLAN_NEW" "exec_state (s1\<lparr>have_target := False\<rparr>) \<noteq> REPLAN_NEW"
    using st by simp_all
  have ch1: "\<exists>s'. changeFSMExecState WAIT_TARGET ''FSM'' (s1\<lparr>have_target := False\<rparr>) = Inr s' \<and>
      exec_state s' = WAIT_TARGET \<and> replan_count s' = replan_count s"
    using rc by (simp add: changeFSMExecState_Inr [OF ne1(2)] replan_count_def)
  have ch2: "\<exists>s'. changeFSMExecState REPLAN_TRAJ ''FSM'' s1 = Inr s' \<and>
      exec_state s' = REPLAN_TRAJ \<and> replan_count s' = replan_count s"
    using rc by (simp add: changeFSMExecState_Inr [OF ne1(1)] replan_count_def)
  show ?thesis
    unfolding cb exec_EXEC_TRAJ_def Let_def
    using st rc ch1 ch2 by auto
qed

lemma tick_INIT:
  assumes "exec_state s = INIT"
  shows "\<exists>s'. execFSMCallback e s = Inr s' \<and> (exec_state s' = INIT \<or> exec_state s' = WAIT_TARGET) \<and>
     replan_count s' = replan_count s"
proof -
  have ne: "exec_state s \<noteq> REPLAN_NEW" using assms by simp
  from fsm_count_Inr [OF ne] obtain s1 where c: "fsm_count s = Inr s1" and sb: "same_but_log s s1"
    by blast
  have st: "exec_state s1 = INIT" using same_but_log_count [OF sb] assms by simp
  have rc: "replan_count s1 = replan_count s" by (rule same_but_log_replan_count_tick [OF c])
  have ne1: "exec_state s1 \<noteq> REPLAN_NEW" using st by simp
  have cb: "execFSMCallback e s = exec_INIT s1"
    by (simp add: execFSMCallback_def c exec_switch_def st)
  show ?thesis
    unfolding cb exec_INIT_def using st rc
    by (simp add: changeFSMExecState_Inr [OF ne1] replan_count_def)
qed

lemma tick_WAIT_TARGET:
  assumes "exec_state s = WAIT_TARGET"
  shows "\<exists>s'. execFSMCallback e s = Inr s' \<and>
     (exec_state s' = WAIT_TARGET \<or> exec_state s' = GEN_NEW_TRAJ) \<and>
     replan_count s' = replan_count s"
proof -
  have ne: "exec_state s \<noteq> REPLAN_NEW" using assms by simp
  from fsm_count_Inr [OF ne] obtain s1 where c: "fsm_count s = Inr s1" and sb: "same_but_log s s1"
    by blast
  have st: "exec_state s1 = WAIT_TARGET" using same_but_log_count [OF sb] assms by simp
  have rc: "replan_count s1 = replan_count s" by (rule same_but_log_replan_count_tick [OF c])
  have ne1: "exec_state s1 \<noteq> REPLAN_NEW" using st by simp
  have cb: "execFSMCallback e s = exec_WAIT_TARGET s1"
    by (simp add: execFSMCallback_def c exec_switch_def st)
  show ?thesis
    unfolding cb exec_WAIT_TARGET_def using st rc
    by (simp add: changeFSMExecState_Inr [OF ne1] replan_count_def)
qed

lemma execFSMCallback_total:
  assumes "exec_state s \<noteq> REPLAN_NEW"
  shows "\<exists>s'. execFSMCallback e s = Inr s' \<and> exec_state s' \<noteq> REPLAN_NEW"
proof (cases "exec_state s")
  case INIT
  from tick_INIT [OF this, of e] show ?thesis by auto
next
  case WAIT_TARGET
  from tick_WAIT_TARGET [OF this, of e] show ?thesis by auto
next
  case GEN_NEW_TRAJ
  from tick_GEN_NEW_TRAJ [OF this, of e] show ?thesis by auto
next
  case REPLAN_TRAJ
  from tick_REPLAN_TRAJ [OF this, of e] show ?thesis by auto
next
  case EXEC_TRAJ
  from tick_EXEC_TRAJ_state [OF this, of e] show ?thesis by auto
next
  case REPLAN_NEW
  with assms show ?thesis by simp
qed

lemma select_target_state:
  "select_target p s = Inr s2 \<Longrightarrow> exec_state s2 = exec_state s"
  by (auto simp add: select_target_def split: if_splits)

lemma select_target_fault:
  "select_target p s \<noteq> Inl State_index_out_of_range"
  by (simp add: select_target_def)

lemma waypointCallback_state:
  assumes "exec_state s \<noteq> REPLAN_NEW"
  shows "waypointCallback msg s \<noteq> Inl State_index_out_of_range \<and>
     (\<forall>s'. waypointCallback msg s = Inr s' \<longrightarrow> exec_state s' \<noteq> REPLAN_NEW)"
proof (cases msg)
  case Nil
  then show ?thesis by (simp add: waypointCallback_def)
next
  case (Cons p ps)
  show ?thesis
  proof (cases "v2 p < - 0.1")
    case True
    then show ?thesis using assms Cons by (simp add: waypointCallback_def)
  next
    case False
    let ?s1 = "(emit (Cout ''Triggered!'') s)\<lparr>trigger := True\<rparr>"
    show ?thesis
    proof (cases "select_target p ?s1")
      case (Inl f)
      then have "f \<noteq> State_index_out_of_range" using select_target_fault [of p ?s1] by auto
      then show ?thesis using False Cons Inl by (simp add: waypointCallback_def)
    next
      case (Inr s2)
      define s3 where "s3 = (emit (DrawGoal (end_pt s2)) s2)\<lparr>end_vel := vzero, have_target := True\<rparr>"
      have st: "exec_state s3 = exec_state s"
        using select_target_state [OF Inr] by (simp add: s3_def)
      then have ne: "exec_state s3 \<noteq> REPLAN_NEW" using assms by simp
      have w: "waypointCallback msg s =
         (if exec_state s3 = WAIT_TARGET then changeFSMExecState GEN_NEW_TRAJ ''TRIG'' s3
          else if exec_state s3 = EXEC_TRAJ then changeFSMExecState REPLAN_TRAJ ''TRIG'' s3
          else Inr s3)"
        using False Cons by (simp add: waypointCallback_def Inr Let_def s3_def)
      show ?thesis
        unfolding w using ne
        by (auto simp add: changeFSMExecState_Inr [OF ne])
    qed
  qed
qed

lemma reachable_five:
  "reachable s \<Longrightarrow> exec_state s \<noteq> REPLAN_NEW"
proof (induction rule: reachable.induct)
  case (reach_init s)
  then show ?case by (simp add: initial_def)
next
  case (reach_tick s e s')
  with execFSMCallback_total [of s e] show ?case by auto
next
  case (reach_safety s e s')
  with checkCollisionCallback_total [of s e] show ?case by auto
next
  case (reach_goal s msg s')
  with waypointCallback_state [of s msg] show ?case by auto
next
  case (reach_odom s msg)
  then show ?case by (simp add: odometryCallback_def)
qed

subsection \<open>The replan decision of state \<open>EXEC_TRAJ\<close>\<close>

lemma tick_EXEC_TRAJ_policy:
  assumes "exec_state s = EXEC_TRAJ"
  shows "\<exists>s'. execFSMCallback e s = Inr s' \<and>
     (let info = local_data s;
          t_cur = exec_t_cur info (now e);
          pos = evaluateDeBoorT (position_traj info) t_cur
      in (t_cur = duration info \<longrightarrow> t_cur > duration info - 1 / 100) \<and>
         (if t_cur > duration info - 1 / 100 then
            exec_state s' = WAIT_TARGET \<and> \<not> have_target s'
          else if vnorm (vsub (end_pt s) pos) < no_replan_thresh s
                  \<or> vnorm (vsub (start_pos info) pos) < replan_thresh s then
            same_but_log s s'
          else exec_state s' = REPLAN_TRAJ \<and> have_target s' = have_target s \<and> end_pt s' = end_pt s))"
proof -
  have ne: "exec_state s \<noteq> REPLAN_NEW" using assms by simp
  from fsm_count_Inr [OF ne] obtain s1 where c: "fsm_count s = Inr s1" and sb: "same_but_log s s1"
    by blast
  from same_but_logD [OF sb] obtain n l where s1: "s1 = s\<lparr>fsm_num := n, out := l\<rparr>" by blast
  have st: "exec_state s1 = EXEC_TRAJ" using assms s1 by simp
  have cb: "execFSMCallback e s = exec_EXEC_TRAJ e s1"
    by (simp add: execFSMCallback_def c exec_switch_def st)
  have f: "local_data s1 = local_data s" "end_pt s1 = end_pt s" "have_target s1 = have_target s"
    "no_replan_thresh s1 = no_replan_thresh s" "replan_thresh s1 = replan_thresh s"
    using s1 by simp_all
  have ne1: "exec_state s1 \<noteq> REPLAN_NEW" "exec_state (s1\<lparr>have_target := False\<rparr>) \<noteq> REPLAN_NEW"
    using st by simp_all
  have ch1: "\<exists>s'. changeFSMExecState WAIT_TARGET ''FSM'' (s1\<lparr>have_target := False\<rparr>) = Inr s' \<and>
      exec_state s' = WAIT_TARGET \<and> \<not> have_target s'"
    by (simp add: changeFSMExecState_Inr [OF ne1(2)])
  have ch2: "\<exists>s'. changeFSMExecState REPLAN_TRAJ ''FSM'' s1 = Inr s' \<and>
      exec_state s' = REPLAN_TRAJ \<and> have_target s' = have_target s \<and> end_pt s' = end_pt s"
    by (simp add: changeFSMExecState_Inr [OF ne1(1)] f)
  show ?thesis
    unfolding cb exec_EXEC_TRAJ_def Let_def f
    using sb ch1 ch2 by auto
qed

lemma sqrt_squares: "sqrt 25 = 5" "sqrt 81 = 9"
  using real_sqrt_abs [of 5] real_sqrt_abs [of 9] by simp_all

text \<open>
  Claim C1. A tick in state \<open>EXEC_TRAJ\<close> returns without fault and decides in three steps
  on \<open>t_cur\<close>, the smaller of the duration and the time since the start of the trajectory,
  and \<open>pos\<close>, the trajectory position at \<open>t_cur\<close>. If \<open>t_cur\<close> exceeds the duration minus
  0.01, as it does whenever \<open>t_cur\<close> equals the duration, the goal flag is cleared and the
  state becomes \<open>WAIT_TARGET\<close>, whatever the distances and thresholds. Otherwise, if the
  Euclidean distance from \<open>pos\<close> to the goal is below \<open>no_replan_thresh\<close>, or that from the
  trajectory start to \<open>pos\<close> is below \<open>replan_thresh\<close>, nothing changes but the tick
  counter and the log. Otherwise the state becomes \<open>REPLAN_TRAJ\<close> and the goal stays as it
  is.
\<close>

theorem C1_replan_decision_policy:
  assumes "exec_state s = EXEC_TRAJ"
  shows "\<exists>s'. execFSMCallback e s = Inr s' \<and>
     (let info = local_data s;
          t_cur = min (duration info) (now e - start_time info);
          pos = evaluateDeBoorT (position_traj info) t_cur;
          to_goal = sqrt ((v0 (end_pt s) - v0 pos) * (v0 (end_pt s) - v0 pos)
                        + (v1 (end_pt s) - v1 pos) * (v1 (end_pt s) - v1 pos)
                        + (v2 (end_pt s) - v2 pos) * (v2 (end_pt s) - v2 pos));
          from_start = sqrt ((v0 (start_pos info) - v0 pos) * (v0 (start_pos info) - v0 pos)
                           + (v1 (start_pos info) - v1 pos) * (v1 (start_pos info) - v1 pos)
                           + (v2 (start_pos info) - v2 pos) * (v2 (start_pos info) - v2 pos))
      in (t_cur = duration info \<longrightarrow> exec_state s' = WAIT_TARGET \<and> \<not> have_target s') \<and>
         (if t_cur > duration info - 1 / 100 then
            exec_state s' = WAIT_TARGET \<and> \<not> have_target s'
          else if to_goal < no_replan_thresh s \<or> from_start < replan_thresh s then
            same_but_log s s'
          else exec_state s' = REPLAN_TRAJ \<and> have_target s' = have_target s \<and> end_pt s' = end_pt s))"
proof -
  from tick_EXEC_TRAJ_policy [OF assms, of e] obtain s' where
    cb: "execFSMCallback e s = Inr s'" and
    r: "let info = local_data s;
            t_cur = exec_t_cur info (now e);
            pos = evaluateDeBoorT (position_traj info) t_cur
        in (t_cur = duration info \<longrightarrow> t_cur > duration info - 1 / 100) \<and>
           (if t_cur > duration info - 1 / 100 then
              exec_state s' = WAIT_TARGET \<and> \<not> have_target s'
            else if vnorm (vsub (end_pt s) pos) < no_replan_thresh s
                    \<or> vnorm (vsub (start_pos info) pos) < replan_thresh s then
              same_but_log s s'
            else exec_state s' = REPLAN_TRAJ \<and> have_target s' = have_target s \<and> end_pt s' = end_pt s)"
    by blast
  from r show ?thesis
    unfolding cb Let_def exec_t_cur_def vnorm_def vsub_def
    by (auto split: if_splits)
qed

theorem C1_replan_decision_policy_witness:
  "exec_state (unsafe_fsm\<lparr>end_pt := Vec3 10 0 1\<rparr>) = EXEC_TRAJ \<and>
   exec_state (unsafe_fsm\<lparr>end_pt := Vec3 6 0 1\<rparr>) = EXEC_TRAJ \<and>
   (\<exists>s'. execFSMCallback (example_env\<lparr>now := 109.999\<rparr>) (unsafe_fsm\<lparr>end_pt := Vec3 10 0 1\<rparr>) = Inr s' \<and>
         exec_state s' = WAIT_TARGET \<and> \<not> have_target s') \<and>
   (\<exists>s'. execFSMCallback (example_env\<lparr>now := 110\<rparr>) (unsafe_fsm\<lparr>end_pt := Vec3 10 0 1\<rparr>) = Inr s' \<and>
         exec_state s' = WAIT_TARGET \<and> \<not> have_target s') \<and>
   (\<exists>s'. execFSMCallback (example_env\<lparr>now := 105\<rparr>) (unsafe_fsm\<lparr>end_pt := Vec3 6 0 1\<rparr>) = Inr s' \<and>
         same_but_log (unsafe_fsm\<lparr>end_pt := Vec3 6 0 1\<rparr>) s') \<and>
   (\<exists>s'. execFSMCallback (example_env\<lparr>now := 101\<rparr>) (unsafe_fsm\<lparr>end_pt := Vec3 10 0 1\<rparr>) = Inr s' \<and>
         same_but_log (unsafe_fsm\<lparr>end_pt := Vec3 10 0 1\<rparr>) s') \<and>
   (\<exists>s'. execFSMCallback (example_env\<lparr>now := 105\<rparr>) (unsafe_fsm\<lparr>end_pt := Vec3 10 0 1\<rparr>) = Inr s' \<and>
         exec_state s' = REPLAN_TRAJ \<and> have_target s' \<and> end_pt s' = Vec3 10 0 1)"
proof -
  have st: "exec_state (unsafe_fsm\<lparr>end_pt := Vec3 10 0 1\<rparr>) = EXEC_TRAJ"
    "exec_state (unsafe_fsm\<lparr>end_pt := Vec3 6 0 1\<rparr>) = EXEC_TRAJ"
    by (simp_all add: unsafe_fsm_def)
  have exhausted: "\<exists>s'. execFSMCallback (example_env\<lparr>now := 109.999\<rparr>) (unsafe_fsm\<lparr>end_pt := Vec3 10 0 1\<rparr>) = Inr s' \<and>
         exec_state s' = WAIT_TARGET \<and> \<not> have_target s'"
    using C1_replan_decision_policy [OF st(1), of "example_env\<lparr>now := 109.999\<rparr>"]
    by (simp add: unsafe_fsm_def example_fsm_def example_env_def example_traj_def curve_of_def)
  have at_end: "\<exists>s'. execFSMCallback (example_env\<lparr>now := 110\<rparr>) (unsafe_fsm\<lparr>end_pt := Vec3 10 0 1\<rparr>) = Inr s' \<and>
         exec_state s' = WAIT_TARGET \<and> \<not> have_target s'"
    using C1_replan_decision_policy [OF st(1), of "example_env\<lparr>now := 110\<rparr>"]
    by (simp add: unsafe_fsm_def example_fsm_def example_env_def example_traj_def curve_of_def)
  have near_goal: "\<exists>s'. execFSMCallback (example_env\<lparr>now := 105\<rparr>) (unsafe_fsm\<lparr>end_pt := Vec3 6 0 1\<rparr>) = Inr s' \<and>
         same_but_log (unsafe_fsm\<lparr>end_pt := Vec3 6 0 1\<rparr>) s'"
    using C1_replan_decision_policy [OF st(2), of "example_env\<lparr>now := 105\<rparr>"]
    by (simp add: unsafe_fsm_def example_fsm_def example_env_def example_traj_def curve_of_def)
  have near_start: "\<exists>s'. execFSMCallback (example_env\<lparr>now := 101\<rparr>) (unsafe_fsm\<lparr>end_pt := Vec3 10 0 1\<rparr>) = Inr s' \<and>
         same_but_log (unsafe_fsm\<lparr>end_pt := Vec3 10 0 1\<rparr>) s'"
    using C1_replan_decision_policy [OF st(1), of "example_env\<lparr>now := 101\<rparr>"]
    by (simp add: unsafe_fsm_def example_fsm_def example_env_def example_traj_def curve_of_def
        sqrt_squares)
  have replan: "\<exists>s'. execFSMCallback (example_env\<lparr>now := 105\<rparr>) (unsafe_fsm\<lparr>end_pt := Vec3 10 0 1\<rparr>) = Inr s' \<and>
         exec_state s' = REPLAN_TRAJ \<and> have_target s' \<and> end_pt s' = Vec3 10 0 1"
    using C1_replan_decision_policy [OF st(1), of "example_env\<lparr>now := 105\<rparr>"]
    by (simp add: unsafe_fsm_def example_fsm_def example_env_def example_traj_def curve_of_def
        sqrt_squares)
  from st exhausted at_end near_goal near_start replan show ?thesis by blast
qed

subsection \<open>Goal messages\<close>

text \<open>
  Claim C3, as amended. Provided that in preset mode the waypoint index lies inside the
  50-entry waypoint array and the waypoint count is not zero, a goal message whose first
  pose has z at least -0.1 sets \<open>trigger\<close> and \<open>have_target\<close>, zeroes the goal velocity
  and latches the goal of the configured target mode (the manual goal, the next preset
  waypoint, or the goal held before in any other mode); the state becomes \<open>GEN_NEW_TRAJ\<close>
  from \<open>WAIT_TARGET\<close>, \<open>REPLAN_TRAJ\<close> from \<open>EXEC_TRAJ\<close>, and stays as it is from every other
  state.
\<close>

theorem C3_goal_arrival:
  assumes "msg = p # ps" "v2 p \<ge> - 0.1" "target_defined s"
  shows "\<exists>s'. waypointCallback msg s = Inr s' \<and> trigger s' \<and> have_target s' \<and> end_vel s' = vzero \<and>
     exec_state s' = (if exec_state s = WAIT_TARGET then GEN_NEW_TRAJ
                      else if exec_state s = EXEC_TRAJ then REPLAN_TRAJ
                      else exec_state s) \<and>
     end_pt s' = (if target_type s = MANUAL_TARGET then Vec3 (v0 p) (v1 p) 1
                  else if target_type s = PRESET_TARGET then waypoints s (nat (current_wp s))
                  else end_pt s)"
proof -
  let ?s1 = "(emit (Cout ''Triggered!'') s)\<lparr>trigger := True\<rparr>"
  let ?g = "if target_type s = MANUAL_TARGET then Vec3 (v0 p) (v1 p) 1
            else if target_type s = PRESET_TARGET then waypoints s (nat (current_wp s))
            else end_pt s"
  have "target_defined ?s1" using assms(3) by (simp add: target_defined_def)
  from select_target_Inr [OF this, of p]
  obtain s2 where sel: "select_target p ?s1 = Inr s2"
    and f: "exec_state s2 = exec_state s" "trigger s2" "end_pt s2 = ?g"
    by auto
  define s3 where "s3 = (emit (DrawGoal (end_pt s2)) s2)\<lparr>end_vel := vzero, have_target := True\<rparr>"
  have f3: "exec_state s3 = exec_state s" "trigger s3" "end_pt s3 = ?g" "have_target s3"
    "end_vel s3 = vzero"
    using f by (simp_all add: s3_def)
  have w: "waypointCallback msg s =
       (if exec_state s = WAIT_TARGET then changeFSMExecState GEN_NEW_TRAJ ''TRIG'' s3
        else if exec_state s = EXEC_TRAJ then changeFSMExecState REPLAN_TRAJ ''TRIG'' s3
        else Inr s3)"
    using assms(1,2) by (simp add: waypointCallback_def sel Let_def s3_def f(1))
  show ?thesis
  proof (cases "exec_state s = WAIT_TARGET \<or> exec_state s = EXEC_TRAJ")
    case True
    then have ne: "exec_state s3 \<noteq> REPLAN_NEW" using f3(1) by auto
    from True show ?thesis
      unfolding w
      by (auto simp add: changeFSMExecState_Inr [OF ne] f3)
  next
    case False
    then show ?thesis unfolding w by (simp add: f3)
  qed
qed


theorem C3_goal_arrival_witness:
  "v2 (Vec3 4 5 0) \<ge> - 0.1 \<and>
   (\<exists>s'. waypointCallback [Vec3 4 5 0] (example_fsm\<lparr>target_type := 2, current_wp := 2, exec_state := EXEC_TRAJ\<rparr>) = Inr s' \<and>
         trigger s' \<and> have_target s' \<and> end_vel s' = vzero \<and> exec_state s' = REPLAN_TRAJ \<and>
         end_pt s' = Vec3 2 0 1)"
  using C3_goal_arrival [of "[Vec3 4 5 0]" "Vec3 4 5 0" "[]"
      "example_fsm\<lparr>target_type := 2, current_wp := 2, exec_state := EXEC_TRAJ\<rparr>"]
  by (simp add: example_fsm_def target_defined_def PRESET_TARGET_def MANUAL_TARGET_def)

text \<open>
  Without the proviso the handler does not complete. A node constructed in preset mode
  with a waypoint count of zero is in its initial state; on a goal message with z = 0 it
  sets \<open>trigger\<close>, reads the waypoint and then takes the remainder by zero: the handler
  ends in a fault, no goal is latched and the state does not change.
\<close>

theorem C3_preset_zero_count_counterexample:
  "initial (example_fsm\<lparr>target_type := 2, waypoint_num := 0\<rparr>) \<and>
   v2 (Vec3 4 5 0) \<ge> - 0.1 \<and>
   waypointCallback [Vec3 4 5 0] (example_fsm\<lparr>target_type := 2, waypoint_num := 0\<rparr>)
     = Inl Division_by_zero"
  by (simp add: initial_def example_fsm_def waypointCallback_def select_target_def
      MANUAL_TARGET_def PRESET_TARGET_def)

text \<open>
  Claim C5. A goal message whose first pose has z below -0.1 is dropped: the handler
  returns the members of the node exactly as they were (state, flags, goal position and
  velocity, waypoint index, and nothing emitted).
\<close>

theorem C5_sentinel_goal_ignored:
  assumes "msg = p # ps" "v2 p < - 0.1"
  shows "waypointCallback msg s = Inr s"
  using assms by (simp add: waypointCallback_def)


theorem C5_sentinel_goal_ignored_witness:
  "v2 (Vec3 1 2 (- 5)) < - 0.1 \<and> waypointCallback [Vec3 1 2 (- 5)] example_fsm = Inr example_fsm"
  using C5_sentinel_goal_ignored [of "[Vec3 1 2 (- 5)]" "Vec3 1 2 (- 5)" "[]" example_fsm]
  by simp

text \<open>
  Claim C10. In manual-target mode an accepted goal message sets the goal to the x and y
  of the first pose and to the height 1.0, whatever z the message carries.
\<close>

theorem C10_manual_goal_height:
  assumes "target_type s = MANUAL_TARGET" "msg = p # ps" "v2 p \<ge> - 0.1"
  shows "\<exists>s'. waypointCallback msg s = Inr s' \<and> end_pt s' = Vec3 (v0 p) (v1 p) 1"
proof -
  let ?s3 = "(emit (DrawGoal (Vec3 (v0 p) (v1 p) 1)) ((emit (Cout ''Triggered!'') s)\<lparr>trigger := True, end_pt := Vec3 (v0 p) (v1 p) 1\<rparr>))\<lparr>end_vel := vzero, have_target := True\<rparr>"
  have sel: "select_target p ((emit (Cout ''Triggered!'') s)\<lparr>trigger := True\<rparr>) = Inr ((emit (Cout ''Triggered!'') s)\<lparr>trigger := True, end_pt := Vec3 (v0 p) (v1 p) 1\<rparr>)"
    using assms(1) by (simp add: select_target_def)
  have w: "waypointCallback msg s = (if exec_state s = WAIT_TARGET then changeFSMExecState GEN_NEW_TRAJ ''TRIG'' ?s3
                     else if exec_state s = EXEC_TRAJ then changeFSMExecState REPLAN_TRAJ ''TRIG'' ?s3
                     else Inr ?s3)"
    using assms(2,3) by (simp add: waypointCallback_def sel Let_def)
  show ?thesis
  proof (cases "exec_state s = WAIT_TARGET \<or> exec_state s = EXEC_TRAJ")
    case True
    then have ne: "exec_state ?s3 \<noteq> REPLAN_NEW" by auto
    from True changeFSMExecState_Inr [OF ne, of GEN_NEW_TRAJ "''TRIG''"]
      changeFSMExecState_Inr [OF ne, of REPLAN_TRAJ "''TRIG''"]
    show ?thesis unfolding w by auto
  next
    case False
    then show ?thesis unfolding w by simp
  qed
qed


theorem C10_manual_goal_height_witness:
  "target_type example_fsm = MANUAL_TARGET \<and> v2 (Vec3 4 5 7) \<ge> - 0.1 \<and>
   (\<exists>s'. waypointCallback [Vec3 4 5 7] example_fsm = Inr s' \<and> end_pt s' = Vec3 4 5 1)"
  using C10_manual_goal_height [of example_fsm "[Vec3 4 5 7]" "Vec3 4 5 7" "[]"]
  by (simp add: example_fsm_def MANUAL_TARGET_def)

subsection \<open>The sample time\<close>

text \<open>
  Claim C2, as amended. In state \<open>EXEC_TRAJ\<close> the time \<open>t_cur\<close> used for sampling the
  curve and for the exhaustion test is the smaller of the duration and the elapsed time: it
  never exceeds the duration nor the elapsed time, it is the duration for every tick at or
  after the end of the trajectory, and it is non-negative exactly when the duration is
  non-negative and the tick is not before the start of the trajectory.
\<close>

theorem C2_exec_t_cur_bounds:
  "exec_t_cur info t \<le> duration info \<and>
   exec_t_cur info t \<le> t - start_time info \<and>
   (duration info \<le> t - start_time info \<longrightarrow> exec_t_cur info t = duration info) \<and>
   (t - start_time info \<le> duration info \<longrightarrow> exec_t_cur info t = t - start_time info) \<and>
   (0 \<le> exec_t_cur info t \<longleftrightarrow> 0 \<le> duration info \<and> start_time info \<le> t)"
  by (auto simp add: exec_t_cur_def)

theorem C2_exec_t_cur_bounds_witness:
  "duration example_traj \<le> 120 - start_time example_traj \<and>
   105 - start_time example_traj \<le> duration example_traj \<and>
   exec_t_cur example_traj 120 = 10 \<and> exec_t_cur example_traj 105 = 5 \<and>
   0 \<le> exec_t_cur example_traj 105"
proof -
  have h: "duration example_traj \<le> 120 - start_time example_traj"
    "105 - start_time example_traj \<le> duration example_traj"
    "duration example_traj = 10" "start_time example_traj = 100"
    by (simp_all add: example_traj_def)
  from C2_exec_t_cur_bounds [of example_traj 120] C2_exec_t_cur_bounds [of example_traj 105] h
  show ?thesis by simp
qed

text \<open>
  The sample times are not confined to the interval from 0 to the duration. For the example
  trajectory (start 100, duration 10), a tick at time 99 gives \<open>t_cur = -1\<close> in state
  \<open>EXEC_TRAJ\<close> and in state \<open>REPLAN_TRAJ\<close>; a tick at time 120 in state \<open>REPLAN_TRAJ\<close>
  gives \<open>t_cur = 20\<close>, and the start point handed to the planner is the curve at 20.
\<close>

theorem C2_t_cur_unclamped_counterexample:
  "\<not> 0 \<le> exec_t_cur example_traj 99 \<and>
   \<not> 0 \<le> replan_t_cur example_traj 99 \<and>
   \<not> replan_t_cur example_traj 120 \<le> duration example_traj \<and>
   map_sum id start_pt (execFSMCallback (example_env\<lparr>now := 120\<rparr>) (example_fsm\<lparr>exec_state := REPLAN_TRAJ\<rparr>))
     = Inr (Vec3 20 0 1)"
proof -
  have "map_sum id start_pt (execFSMCallback (example_env\<lparr>now := 120\<rparr>) (example_fsm\<lparr>exec_state := REPLAN_TRAJ\<rparr>))
     = Inr (Vec3 20 0 1)"
    by (simp add: execFSMCallback_def fsm_count_def exec_switch_def exec_REPLAN_TRAJ_def
        replan_start_def callKinodynamicReplan_def changeFSMExecState_def state_str_def
        replan_t_cur_def example_fsm_def example_env_def example_traj_def curve_of_def Let_def)
  then show ?thesis
    by (simp add: exec_t_cur_def replan_t_cur_def example_traj_def)
qed

subsection \<open>Planner failures\<close>

text \<open>
  Claim C6. A tick whose planner call fails returns without fault: from \<open>GEN_NEW_TRAJ\<close> the
  state is \<open>GEN_NEW_TRAJ\<close> again, also after any number of ticks with a failing planner;
  from \<open>REPLAN_TRAJ\<close> the state becomes \<open>GEN_NEW_TRAJ\<close>. A tick whose planner call succeeds
  leads from either state to \<open>EXEC_TRAJ\<close>.
\<close>

theorem C6_replan_failure_retry:
  "(exec_state s = GEN_NEW_TRAJ \<and> \<not> gen_call_ok e s \<longrightarrow>
      (\<exists>s'. execFSMCallback e s = Inr s' \<and> exec_state s' = GEN_NEW_TRAJ)) \<and>
   (exec_state s = GEN_NEW_TRAJ \<and> (\<forall>e \<in> set es. planner_fails e) \<longrightarrow>
      (\<exists>s'. run_ticks es s = Inr s' \<and> exec_state s' = GEN_NEW_TRAJ)) \<and>
   (exec_state s = REPLAN_TRAJ \<and> \<not> replan_call_ok e s \<longrightarrow>
      (\<exists>s'. execFSMCallback e s = Inr s' \<and> exec_state s' = GEN_NEW_TRAJ)) \<and>
   (exec_state s = GEN_NEW_TRAJ \<and> gen_call_ok e s \<longrightarrow>
      (\<exists>s'. execFSMCallback e s = Inr s' \<and> exec_state s' = EXEC_TRAJ)) \<and>
   (exec_state s = REPLAN_TRAJ \<and> replan_call_ok e s \<longrightarrow>
      (\<exists>s'. execFSMCallback e s = Inr s' \<and> exec_state s' = EXEC_TRAJ))"
proof (intro conjI impI)
  assume "exec_state s = GEN_NEW_TRAJ \<and> \<not> gen_call_ok e s"
  then show "\<exists>s'. execFSMCallback e s = Inr s' \<and> exec_state s' = GEN_NEW_TRAJ"
    using tick_GEN_NEW_TRAJ [of s e] by auto
next
  assume "exec_state s = GEN_NEW_TRAJ \<and> (\<forall>e \<in> set es. planner_fails e)"
  then show "\<exists>s'. run_ticks es s = Inr s' \<and> exec_state s' = GEN_NEW_TRAJ"
    using run_ticks_failing [of es s] by blast
next
  assume "exec_state s = REPLAN_TRAJ \<and> \<not> replan_call_ok e s"
  then show "\<exists>s'. execFSMCallback e s = Inr s' \<and> exec_state s' = GEN_NEW_TRAJ"
    using tick_REPLAN_TRAJ [of s e] by auto
next
  assume "exec_state s = GEN_NEW_TRAJ \<and> gen_call_ok e s"
  then show "\<exists>s'. execFSMCallback e s = Inr s' \<and> exec_state s' = EXEC_TRAJ"
    using tick_GEN_NEW_TRAJ [of s e] by auto
next
  assume "exec_state s = REPLAN_TRAJ \<and> replan_call_ok e s"
  then show "\<exists>s'. execFSMCallback e s = Inr s' \<and> exec_state s' = EXEC_TRAJ"
    using tick_REPLAN_TRAJ [of s e] by auto
qed

theorem C6_replan_failure_retry_witness:
  "exec_state (example_fsm\<lparr>exec_state := GEN_NEW_TRAJ\<rparr>) = GEN_NEW_TRAJ \<and>
   \<not> gen_call_ok example_env (example_fsm\<lparr>exec_state := GEN_NEW_TRAJ\<rparr>) \<and>
   gen_call_ok example_env_ok (example_fsm\<lparr>exec_state := GEN_NEW_TRAJ\<rparr>) \<and>
   \<not> replan_call_ok example_env (example_fsm\<lparr>exec_state := REPLAN_TRAJ\<rparr>) \<and>
   replan_call_ok example_env_ok (example_fsm\<lparr>exec_state := REPLAN_TRAJ\<rparr>) \<and>
   (\<exists>s'. execFSMCallback example_env (example_fsm\<lparr>exec_state := GEN_NEW_TRAJ\<rparr>) = Inr s' \<and>
         exec_state s' = GEN_NEW_TRAJ) \<and>
   (\<exists>s'. run_ticks [example_env, example_env, example_env] (example_fsm\<lparr>exec_state := GEN_NEW_TRAJ\<rparr>) = Inr s' \<and>
         exec_state s' = GEN_NEW_TRAJ) \<and>
   (\<exists>s'. execFSMCallback example_env (example_fsm\<lparr>exec_state := REPLAN_TRAJ\<rparr>) = Inr s' \<and>
         exec_state s' = GEN_NEW_TRAJ) \<and>
   (\<exists>s'. execFSMCallback example_env_ok (example_fsm\<lparr>exec_state := GEN_NEW_TRAJ\<rparr>) = Inr s' \<and>
         exec_state s' = EXEC_TRAJ) \<and>
   (\<exists>s'. execFSMCallback example_env_ok (example_fsm\<lparr>exec_state := REPLAN_TRAJ\<rparr>) = Inr s' \<and>
         exec_state s' = EXEC_TRAJ)"
proof -
  have h: "\<not> gen_call_ok example_env (example_fsm\<lparr>exec_state := GEN_NEW_TRAJ\<rparr>)"
    "\<forall>e \<in> set [example_env, example_env, example_env]. planner_fails e"
    "gen_call_ok example_env_ok (example_fsm\<lparr>exec_state := GEN_NEW_TRAJ\<rparr>)"
    "\<not> replan_call_ok example_env (example_fsm\<lparr>exec_state := REPLAN_TRAJ\<rparr>)"
    "replan_call_ok example_env_ok (example_fsm\<lparr>exec_state := REPLAN_TRAJ\<rparr>)"
    by (simp_all add: gen_call_ok_def replan_call_ok_def planner_fails_def callKinodynamicReplan_fst
        example_env_def example_env_ok_def)
  from C6_replan_failure_retry [of "example_fsm\<lparr>exec_state := GEN_NEW_TRAJ\<rparr>" example_env "[example_env, example_env, example_env]"]
    C6_replan_failure_retry [of "example_fsm\<lparr>exec_state := REPLAN_TRAJ\<rparr>" example_env "[]"]
    C6_replan_failure_retry [of "example_fsm\<lparr>exec_state := GEN_NEW_TRAJ\<rparr>" example_env_ok "[]"]
    C6_replan_failure_retry [of "example_fsm\<lparr>exec_state := REPLAN_TRAJ\<rparr>" example_env_ok "[]"]
    h
  show ?thesis by simp
qed

subsection \<open>Replan messages\<close>

text \<open>
  Claim C7. A tick in state \<open>REPLAN_TRAJ\<close> publishes exactly one replan message, already
  present in the state handed to the planner call, whether the call succeeds or fails. A
  tick in state \<open>GEN_NEW_TRAJ\<close> publishes none, nor does a tick in any other state. A
  safety tick that relocates the goal publishes none; one that finds no safe candidate
  publishes exactly one; one that does not search publishes none.
\<close>

theorem C7_replan_signal_count:
  "(exec_state s = REPLAN_TRAJ \<longrightarrow>
      replan_count (replan_start e s) = replan_count s + 1 \<and>
      (\<exists>s'. execFSMCallback e s = Inr s' \<and> replan_count s' = replan_count s + 1)) \<and>
   (exec_state s = GEN_NEW_TRAJ \<longrightarrow>
      (\<exists>s'. execFSMCallback e s = Inr s' \<and> replan_count s' = replan_count s)) \<and>
   (exec_state s = INIT \<or> exec_state s = WAIT_TARGET \<or> exec_state s = EXEC_TRAJ \<longrightarrow>
      (\<exists>s'. execFSMCallback e s = Inr s' \<and> replan_count s' = replan_count s)) \<and>
   (have_target s \<and> clearance e s (end_pt s) \<le> 0.3 \<and> exec_state s \<noteq> REPLAN_NEW \<longrightarrow>
      (\<exists>s'. checkCollisionCallback e s = Inr s' \<and>
         replan_count s' = replan_count s + (if snd (goal_search e s) > 0.3 then 0 else 1))) \<and>
   (\<not> (have_target s \<and> clearance e s (end_pt s) \<le> 0.3) \<and> exec_state s \<noteq> REPLAN_NEW \<longrightarrow>
      (\<exists>s'. checkCollisionCallback e s = Inr s' \<and> replan_count s' = replan_count s))"
proof (intro conjI impI)
  assume "exec_state s = REPLAN_TRAJ"
  then show "\<exists>s'. execFSMCallback e s = Inr s' \<and> replan_count s' = replan_count s + 1"
    using tick_REPLAN_TRAJ [of s e] by auto
next
  show "replan_count (replan_start e s) = replan_count s + 1" by (rule replan_start_count)
next
  assume "exec_state s = GEN_NEW_TRAJ"
  then show "\<exists>s'. execFSMCallback e s = Inr s' \<and> replan_count s' = replan_count s"
    using tick_GEN_NEW_TRAJ [of s e] by auto
next
  assume "exec_state s = INIT \<or> exec_state s = WAIT_TARGET \<or> exec_state s = EXEC_TRAJ"
  then show "\<exists>s'. execFSMCallback e s = Inr s' \<and> replan_count s' = replan_count s"
    using tick_INIT [of s e] tick_WAIT_TARGET [of s e] tick_EXEC_TRAJ_state [of s e] by auto
next
  assume "have_target s \<and> clearance e s (end_pt s) \<le> 0.3 \<and> exec_state s \<noteq> REPLAN_NEW"
  then show "\<exists>s'. checkCollisionCallback e s = Inr s' \<and>
         replan_count s' = replan_count s + (if snd (goal_search e s) > 0.3 then 0 else 1)"
    using checkCollisionCallback_relocation [of s e] by (auto split: if_splits)
next
  assume "\<not> (have_target s \<and> clearance e s (end_pt s) \<le> 0.3) \<and> exec_state s \<noteq> REPLAN_NEW"
  then show "\<exists>s'. checkCollisionCallback e s = Inr s' \<and> replan_count s' = replan_count s"
    using checkCollisionCallback_no_relocation [of s e] by blast
qed

theorem C7_replan_signal_count_witness:
  "exec_state (example_fsm\<lparr>exec_state := REPLAN_TRAJ\<rparr>) = REPLAN_TRAJ \<and>
   exec_state (example_fsm\<lparr>exec_state := GEN_NEW_TRAJ\<rparr>) = GEN_NEW_TRAJ \<and>
   exec_state example_fsm = INIT \<and>
   have_target unsafe_fsm \<and> clearance example_env unsafe_fsm (end_pt unsafe_fsm) \<le> 0.3 \<and>
   exec_state unsafe_fsm \<noteq> REPLAN_NEW \<and>
   (\<exists>s'. execFSMCallback example_env_ok (example_fsm\<lparr>exec_state := REPLAN_TRAJ\<rparr>) = Inr s' \<and>
         replan_count s' = 1) \<and>
   (\<exists>s'. execFSMCallback example_env (example_fsm\<lparr>exec_state := REPLAN_TRAJ\<rparr>) = Inr s' \<and>
         replan_count s' = 1) \<and>
   (\<exists>s'. execFSMCallback example_env (example_fsm\<lparr>exec_state := GEN_NEW_TRAJ\<rparr>) = Inr s' \<and>
         replan_count s' = 0) \<and>
   (\<exists>s'. execFSMCallback example_env example_fsm = Inr s' \<and> replan_count s' = 0) \<and>
   (\<exists>s'. checkCollisionCallback example_env unsafe_fsm = Inr s' \<and> replan_count s' = 1) \<and>
   (\<exists>s'. checkCollisionCallback example_env example_fsm = Inr s' \<and> replan_count s' = 0)"
proof -
  have h: "have_target unsafe_fsm" "clearance example_env unsafe_fsm (end_pt unsafe_fsm) \<le> 0.3"
    "exec_state unsafe_fsm \<noteq> REPLAN_NEW"
    by (simp_all add: unsafe_fsm_def example_fsm_def clearance_def example_env_def)
  have i: "exec_state example_fsm = INIT" "\<not> have_target example_fsm"
    by (simp_all add: example_fsm_def)
  have c: "replan_count (example_fsm\<lparr>exec_state := REPLAN_TRAJ\<rparr>) = 0"
    "replan_count (example_fsm\<lparr>exec_state := GEN_NEW_TRAJ\<rparr>) = 0"
    "replan_count unsafe_fsm = 0" "replan_count example_fsm = 0"
    by (simp_all add: replan_count_def example_fsm_def unsafe_fsm_def)
  have "clearance example_env unsafe_fsm ` set (grid_points (end_pt unsafe_fsm)) = {1 / 10}"
    by (rule constant_clearance_image) (simp add: clearance_def example_env_def)
  then have m: "snd (goal_search example_env unsafe_fsm) = 1 / 10"
    by (simp add: goal_search_Max)
  from C7_replan_signal_count [of "example_fsm\<lparr>exec_state := REPLAN_TRAJ\<rparr>" example_env_ok]
    C7_replan_signal_count [of "example_fsm\<lparr>exec_state := REPLAN_TRAJ\<rparr>" example_env]
    C7_replan_signal_count [of "example_fsm\<lparr>exec_state := GEN_NEW_TRAJ\<rparr>" example_env]
    C7_replan_signal_count [of example_fsm example_env]
    C7_replan_signal_count [of unsafe_fsm example_env] h i
  show ?thesis unfolding c m by simp
qed

subsection \<open>The safety monitor\<close>

lemma relocation_by_grid:
  assumes "have_target s" "clearance e s (end_pt s) \<le> 0.3" "exec_state s \<noteq> REPLAN_NEW"
  shows "goal_search e s = track_max (clearance e s) (grid_points (end_pt s)) (None, - 1) \<and>
     length (grid_points (end_pt s)) = 195 \<and>
     (\<exists>s'. checkCollisionCallback e s = Inr s' \<and>
        (let best = Max (clearance e s ` set (grid_points (end_pt s)))
         in if best > 0.3 then
              List.find (\<lambda>p. clearance e s p = best) (grid_points (end_pt s)) = Some (end_pt s') \<and>
              have_target s' \<and> end_vel s' = vzero \<and>
              exec_state s' = (if exec_state s = EXEC_TRAJ then REPLAN_TRAJ else exec_state s)
            else
              end_pt s' = end_pt s \<and> have_target s' \<and> exec_state s' = REPLAN_TRAJ \<and>
              replan_count s' = replan_count s + 1))"
proof -
  let ?best = "Max (clearance e s ` set (grid_points (end_pt s)))"
  have m: "snd (goal_search e s) = max (- 1) ?best" by (rule goal_search_Max)
  from checkCollisionCallback_relocation [OF assms] obtain s' where
    cb: "checkCollisionCallback e s = Inr s'" and
    r: "if snd (goal_search e s) > 0.3 then
          fst (goal_search e s) = Some (end_pt s') \<and> have_target s' \<and> end_vel s' = vzero \<and>
          exec_state s' = (if exec_state s = EXEC_TRAJ then REPLAN_TRAJ else exec_state s) \<and>
          replan_count s' = replan_count s
        else
          end_pt s' = end_pt s \<and> have_target s' \<and> end_vel s' = end_vel s \<and>
          exec_state s' = REPLAN_TRAJ \<and> replan_count s' = replan_count s + 1"
    by blast
  have "if ?best > 0.3 then
          List.find (\<lambda>p. clearance e s p = ?best) (grid_points (end_pt s)) = Some (end_pt s') \<and>
          have_target s' \<and> end_vel s' = vzero \<and>
          exec_state s' = (if exec_state s = EXEC_TRAJ then REPLAN_TRAJ else exec_state s)
        else
          end_pt s' = end_pt s \<and> have_target s' \<and> exec_state s' = REPLAN_TRAJ \<and>
          replan_count s' = replan_count s + 1"
  proof (cases "?best > 0.3")
    case True
    then have eq: "snd (goal_search e s) = ?best" using m by simp
    then have gt: "snd (goal_search e s) > 0.3" "snd (goal_search e s) > - 1" using True by simp_all
    have "fst (goal_search e s) = List.find (\<lambda>p. clearance e s p = ?best) (grid_points (end_pt s))"
      using goal_search_first [of e s] gt(2) eq by simp
    with r gt(1) True show ?thesis by simp
  next
    case False
    then have "\<not> snd (goal_search e s) > 0.3" using m by simp
    with r False show ?thesis by simp
  qed
  moreover have "length (grid_points (end_pt s)) = 195"
    by (simp add: grid_points_def length_grid)
  ultimately show ?thesis using cb by (simp add: goal_search_grid Let_def)
qed

text \<open>
  Claim C4. With a goal held, the clearance of the goal (the time-aware query in a dynamic
  environment, else the static query with time -1) at most 0.3 and the state one of the
  five named ones, the three loops are the maximum tracking over the 195 points of the
  candidate grid around the goal, in the order of the grid, started at -1, and the safety
  tick returns. If the largest clearance over the grid exceeds 0.3, the goal becomes the
  first grid point that attains it, \<open>have_target\<close> is set, the goal velocity is zero, and
  the state becomes \<open>REPLAN_TRAJ\<close> exactly from \<open>EXEC_TRAJ\<close> (otherwise it stays). If
  not, the goal is unchanged, the state becomes \<open>REPLAN_TRAJ\<close> from every state, and one
  replan message is published.
\<close>

theorem C4_goal_relocation:
  assumes "have_target s"
    "(if dynamic e then evaluateCoarseEDT e (end_pt s) (duration (local_data s))
      else evaluateCoarseEDT e (end_pt s) (- 1)) \<le> 0.3"
    "exec_state s \<noteq> REPLAN_NEW"
  shows "let clr = (\<lambda>p. if dynamic e then evaluateCoarseEDT e p (duration (local_data s))
                        else evaluateCoarseEDT e p (- 1));
             pts = map (grid_point (end_pt s))
                       (List.product radii (List.product azimuths heights));
             best = Max (clr ` set pts)
         in goal_search e s = track_max clr pts (None, - 1) \<and>
            length pts = 195 \<and>
            (\<exists>s'. checkCollisionCallback e s = Inr s' \<and>
               (if best > 0.3 then
                  List.find (\<lambda>p. clr p = best) pts = Some (end_pt s') \<and>
                  have_target s' \<and> end_vel s' = Vec3 0 0 0 \<and>
                  exec_state s' = (if exec_state s = EXEC_TRAJ then REPLAN_TRAJ else exec_state s)
                else
                  end_pt s' = end_pt s \<and> have_target s' \<and> exec_state s' = REPLAN_TRAJ \<and>
                  count_list (out s') Replan_msg = count_list (out s) Replan_msg + 1))"
proof -
  have clr: "clearance e s =
      (\<lambda>p. if dynamic e then evaluateCoarseEDT e p (duration (local_data s))
            else evaluateCoarseEDT e p (- 1))"
    by (rule ext) (simp add: clearance_def)
  have pts: "grid_points (end_pt s) =
      map (grid_point (end_pt s)) (List.product radii (List.product azimuths heights))"
    by (simp add: grid_points_def grid_def)
  have a2: "clearance e s (end_pt s) \<le> 0.3"
    using assms(2) by (cases "dynamic e") (simp_all add: clearance_def)
  note r = relocation_by_grid [OF assms(1) a2 assms(3), unfolded clr pts Let_def vzero_def
      replan_count_def]
  show ?thesis unfolding Let_def by (rule r)
qed

theorem C4_goal_relocation_witness:
  "have_target unsafe_fsm \<and> exec_state unsafe_fsm \<noteq> REPLAN_NEW \<and>
   evaluateCoarseEDT example_env (end_pt unsafe_fsm) (- 1) \<le> 0.3 \<and>
   evaluateCoarseEDT example_env_above (end_pt unsafe_fsm) (- 1) \<le> 0.3 \<and>
   (\<exists>s'. checkCollisionCallback example_env unsafe_fsm = Inr s' \<and> end_pt s' = Vec3 0 0 1 \<and>
         have_target s' \<and> exec_state s' = REPLAN_TRAJ \<and> count_list (out s') Replan_msg = 1) \<and>
   (\<exists>s'. checkCollisionCallback example_env_above unsafe_fsm = Inr s' \<and>
         end_pt s' = grid_point (Vec3 0 0 1) (1 / 2, - 90, 3 / 10) \<and>
         have_target s' \<and> end_vel s' = Vec3 0 0 0 \<and> exec_state s' = REPLAN_TRAJ)"
proof -
  let ?pts = "map (grid_point (Vec3 0 0 1)) (List.product radii (List.product azimuths heights))"
  have h: "have_target unsafe_fsm" "exec_state unsafe_fsm \<noteq> REPLAN_NEW"
    by (simp_all add: unsafe_fsm_def example_fsm_def)
  have ev: "dynamic example_env = False" "evaluateCoarseEDT example_env = (\<lambda>p t. 1 / 10)"
    "dynamic example_env_above = False"
    "evaluateCoarseEDT example_env_above = (\<lambda>p t. if v2 p > 6 / 5 then 1 / 2 else 1 / 10)"
    by (simp_all add: example_env_def example_env_above_def)
  have f: "end_pt unsafe_fsm = Vec3 0 0 1" "exec_state unsafe_fsm = EXEC_TRAJ"
    "count_list (out unsafe_fsm) Replan_msg = 0"
    by (simp_all add: unsafe_fsm_def example_fsm_def)
  have g1: "(if dynamic example_env
             then evaluateCoarseEDT example_env (end_pt unsafe_fsm) (duration (local_data unsafe_fsm))
             else evaluateCoarseEDT example_env (end_pt unsafe_fsm) (- 1)) \<le> 0.3"
    by (simp add: ev)
  have g2: "(if dynamic example_env_above
             then evaluateCoarseEDT example_env_above (end_pt unsafe_fsm) (duration (local_data unsafe_fsm))
             else evaluateCoarseEDT example_env_above (end_pt unsafe_fsm) (- 1)) \<le> 0.3"
    by (simp add: ev f)
  have pts: "?pts = grid_points (Vec3 0 0 1)"
    by (simp add: grid_points_def grid_def)
  have "(\<lambda>p. 1 / 10 :: real) ` set ?pts = {1 / 10}"
    unfolding pts by (rule constant_clearance_image) simp
  then have b1: "Max ((\<lambda>p. 1 / 10 :: real) ` set ?pts) = 1 / 10"
    by (simp only: Max_singleton)
  have first: "?pts = grid_point (Vec3 0 0 1) (1 / 2, - 90, 3 / 10) # tl ?pts"
    by (simp add: radii_eq azimuths_eq heights_def)
  have c1: "(if v2 (grid_point (Vec3 0 0 1) (1 / 2, - 90, 3 / 10)) > 6 / 5 then 1 / 2 else 1 / 10)
      = (1 / 2 :: real)"
    by (simp add: grid_point_def)
  have b2: "Max ((\<lambda>p. if v2 p > 6 / 5 then 1 / 2 else 1 / 10 :: real) ` set ?pts) = 1 / 2"
  proof (rule Max_eqI)
    show "finite ((\<lambda>p. if v2 p > 6 / 5 then 1 / 2 else 1 / 10 :: real) ` set ?pts)"
      by simp
    have "grid_point (Vec3 0 0 1) (1 / 2, - 90, 3 / 10) \<in> set ?pts"
      by (subst first) simp
    then have "(\<lambda>p. if v2 p > 6 / 5 then 1 / 2 else 1 / 10 :: real)
                 (grid_point (Vec3 0 0 1) (1 / 2, - 90, 3 / 10))
        \<in> (\<lambda>p. if v2 p > 6 / 5 then 1 / 2 else 1 / 10 :: real) ` set ?pts"
      by (rule imageI)
    then show "1 / 2 \<in> (\<lambda>p. if v2 p > 6 / 5 then 1 / 2 else 1 / 10 :: real) ` set ?pts"
      unfolding c1 .
    fix y
    assume "y \<in> (\<lambda>p. if v2 p > 6 / 5 then 1 / 2 else 1 / 10 :: real) ` set ?pts"
    then show "y \<le> 1 / 2" by auto
  qed
  have fnd: "List.find (\<lambda>p. (if v2 p > 6 / 5 then 1 / 2 else 1 / 10 :: real) = 1 / 2) ?pts
      = Some (grid_point (Vec3 0 0 1) (1 / 2, - 90, 3 / 10))"
    by (subst first) (simp only: find.simps c1 simp_thms if_True)
  note i1 = C4_goal_relocation [OF h(1) g1 h(2), unfolded Let_def ev if_False f b1]
  note i2 = C4_goal_relocation [OF h(1) g2 h(2), unfolded Let_def ev if_False f b2 fnd]
  from i1 obtain sa where
    a: "checkCollisionCallback example_env unsafe_fsm = Inr sa"
       "end_pt sa = Vec3 0 0 1 \<and> have_target sa \<and> exec_state sa = REPLAN_TRAJ \<and>
        count_list (out sa) Replan_msg = 1"
    by auto
  from i2 obtain sb where
    b: "checkCollisionCallback example_env_above unsafe_fsm = Inr sb"
       "end_pt sb = grid_point (Vec3 0 0 1) (1 / 2, - 90, 3 / 10) \<and>
        have_target sb \<and> end_vel sb = Vec3 0 0 0 \<and> exec_state sb = REPLAN_TRAJ"
    by auto
  from a b h show ?thesis by (auto simp add: ev f)
qed

text \<open>
  Claim C8. The goal search depends on the distance field only through its answers at the
  grid points of the goal: two searches from the same goal whose clearance answers agree
  on every grid point return the same candidate and the same maximum. The candidate is the
  first grid point, in scan order, that attains the maximum.
\<close>

theorem C8_goal_search_deterministic:
  assumes "end_pt s1 = end_pt s2"
    "\<forall>p \<in> set (grid_points (end_pt s1)). clearance e1 s1 p = clearance e2 s2 p"
  shows "goal_search e1 s1 = goal_search e2 s2 \<and>
     fst (goal_search e1 s1) =
       (if snd (goal_search e1 s1) > - 1
        then List.find (\<lambda>p. clearance e1 s1 p = snd (goal_search e1 s1)) (grid_points (end_pt s1))
        else None)"
proof -
  have "track_max (clearance e1 s1) (grid_points (end_pt s1)) (None, - 1) =
        track_max (clearance e2 s2) (grid_points (end_pt s1)) (None, - 1)"
    using assms(2) by (rule track_max_cong)
  then have "goal_search e1 s1 = goal_search e2 s2"
    by (simp add: goal_search_grid assms(1))
  with goal_search_first [of e1 s1] show ?thesis by simp
qed

theorem C8_goal_search_deterministic_witness:
  "end_pt unsafe_fsm = end_pt (unsafe_fsm\<lparr>exec_state := INIT\<rparr>) \<and>
   goal_search example_env unsafe_fsm
     = goal_search (example_env\<lparr>dynamic := True, evaluateCoarseEDT := (\<lambda>pt t. if v2 pt > 5 then 7 else 1 / 10)\<rparr>)
         (unsafe_fsm\<lparr>exec_state := INIT\<rparr>)"
proof -
  have a: "end_pt unsafe_fsm = end_pt (unsafe_fsm\<lparr>exec_state := INIT\<rparr>)" by simp
  have b: "\<forall>p \<in> set (grid_points (end_pt unsafe_fsm)).
      clearance example_env unsafe_fsm p
        = clearance (example_env\<lparr>dynamic := True, evaluateCoarseEDT := (\<lambda>pt t. if v2 pt > 5 then 7 else 1 / 10)\<rparr>)
            (unsafe_fsm\<lparr>exec_state := INIT\<rparr>) p"
    by (auto simp add: grid_points_def grid_def grid_point_def candidate_def heights_def
        clearance_def example_env_def unsafe_fsm_def example_fsm_def)
  from C8_goal_search_deterministic [OF a b] a b show ?thesis by blast
qed

subsection \<open>The state names\<close>

text \<open>
  Claim C9. Every state of the node reachable from construction has one of the five named
  execution states, never \<open>REPLAN_NEW\<close>; its cast indexes the state-name array within
  bounds, and no callback reads that array out of range.
\<close>

theorem C9_state_index_in_bounds:
  assumes "reachable s"
  shows "exec_state s \<in> {INIT, WAIT_TARGET, GEN_NEW_TRAJ, REPLAN_TRAJ, EXEC_TRAJ} \<and>
     state_int (exec_state s) < length state_str \<and>
     printFSMExecState s \<noteq> Inl State_index_out_of_range \<and>
     execFSMCallback e s \<noteq> Inl State_index_out_of_range \<and>
     checkCollisionCallback e s \<noteq> Inl State_index_out_of_range \<and>
     waypointCallback msg s \<noteq> Inl State_index_out_of_range"
proof -
  have ne: "exec_state s \<noteq> REPLAN_NEW" using assms by (rule reachable_five)
  then have five: "exec_state s \<in> {INIT, WAIT_TARGET, GEN_NEW_TRAJ, REPLAN_TRAJ, EXEC_TRAJ}"
    by (cases "exec_state s") simp_all
  then have idx: "state_int (exec_state s) < length state_str"
    by (auto simp add: state_str_def)
  then have pr: "printFSMExecState s \<noteq> Inl State_index_out_of_range"
    by (simp add: printFSMExecState_def)
  from execFSMCallback_total [OF ne, of e] checkCollisionCallback_total [OF ne, of e]
    waypointCallback_state [OF ne, of msg] five idx pr
  show ?thesis by auto
qed

theorem C9_state_index_in_bounds_witness:
  "state_int (exec_state (odometryCallback \<lparr>pose_position = Vec3 0 0 1, pose_orientation = Quat 1 0 0 0,
                                twist_linear = Vec3 0 0 0\<rparr> example_fsm)) < length state_str"
proof -
  have i: "initial example_fsm" by (simp add: initial_def example_fsm_def)
  have r: "reachable (odometryCallback \<lparr>pose_position = Vec3 0 0 1, pose_orientation = Quat 1 0 0 0,
                                twist_linear = Vec3 0 0 0\<rparr> example_fsm)"
    by (rule reach_odom [OF reach_init [OF i]])
  from C9_state_index_in_bounds [OF r] r show ?thesis by simp
qed

end
